theory Spec2Isabelle
  imports Main "HOL-Library.Sublist"
begin

section \<open>JavaScript strings and arrays\<close>

text \<open>
  The editor (packages/tui/src/components/editor.ts) works on JavaScript strings, which are
  sequences of UTF-16 code units; \<open>s.length\<close>, \<open>s.slice\<close> and the cursor column all count
  code units. A string is modelled as the list of its code units.
\<close>

type_synonym jsstring = "nat list"

definition str :: "string \<Rightarrow> jsstring" where
  "str s = map of_char s"

definition NL :: nat where "NL = 10"
definition CR :: nat where "CR = 13"
definition TAB :: nat where "TAB = 9"
definition ESC :: nat where "ESC = 27"
definition SPACE :: nat where "SPACE = 32"

text \<open>White space and line terminators of ECMAScript: what \<open>trim\<close> removes and \<open>\s\<close> matches.\<close>

definition isJsSpace :: "nat \<Rightarrow> bool" where
  "isJsSpace c = (c = 9 \<or> c = 10 \<or> c = 11 \<or> c = 12 \<or> c = 13 \<or> c = 32 \<or> c = 160
     \<or> c = 5760 \<or> (8192 \<le> c \<and> c \<le> 8202) \<or> c = 8232 \<or> c = 8233 \<or> c = 8239
     \<or> c = 8287 \<or> c = 12288 \<or> c = 65279)"

definition trimStart :: "jsstring \<Rightarrow> jsstring" where
  "trimStart s = dropWhile isJsSpace s"

definition trimEnd :: "jsstring \<Rightarrow> jsstring" where
  "trimEnd s = rev (dropWhile isJsSpace (rev s))"

definition trim :: "jsstring \<Rightarrow> jsstring" where
  "trim s = trimEnd (trimStart s)"

text \<open>\<open>s.slice(start, end)\<close> and \<open>s.slice(start)\<close>: negative indices count from the end,
  everything is clamped to the string.\<close>

definition js_index :: "nat \<Rightarrow> int \<Rightarrow> nat" where
  "js_index len i = (if i < 0 then nat (max (int len + i) 0) else min (nat i) len)"

definition js_slice :: "jsstring \<Rightarrow> int \<Rightarrow> int \<Rightarrow> jsstring" where
  "js_slice s a b = (let from = js_index (length s) a; to = js_index (length s) b
                     in take (to - from) (drop from s))"

definition js_slice_from :: "jsstring \<Rightarrow> int \<Rightarrow> jsstring" where
  "js_slice_from s a = drop (js_index (length s) a) s"

text \<open>\<open>s[i]\<close>: \<open>undefined\<close> (None) out of range.\<close>

definition js_charAt :: "jsstring \<Rightarrow> int \<Rightarrow> nat option" where
  "js_charAt s i = (if 0 \<le> i \<and> i < int (length s) then Some (s ! nat i) else None)"

text \<open>\<open>lines[i] || ""\<close>: an index outside the array reads \<open>undefined\<close>, which \<open>||\<close> turns
  into the empty string.\<close>

definition js_line :: "jsstring list \<Rightarrow> int \<Rightarrow> jsstring" where
  "js_line ls i = (if 0 \<le> i \<and> i < int (length ls) then ls ! nat i else [])"

text \<open>\<open>lines[i] = v\<close>: inside the array an update; past its end JavaScript extends the array
  (the holes read as \<open>undefined\<close>, modelled as empty lines); a negative index sets a property
  and leaves the elements alone.\<close>

definition js_set :: "jsstring list \<Rightarrow> int \<Rightarrow> jsstring \<Rightarrow> jsstring list" where
  "js_set ls i v =
     (if i < 0 then ls
      else if i < int (length ls) then ls[nat i := v]
      else ls @ replicate (nat i - length ls) [] @ [v])"

text \<open>\<open>lines.splice(i, 0, v)\<close> and \<open>lines.splice(i, 1)\<close>, with the start index clamped as
  \<open>Array.prototype.splice\<close> does.\<close>

definition js_splice_insert :: "jsstring list \<Rightarrow> int \<Rightarrow> jsstring \<Rightarrow> jsstring list" where
  "js_splice_insert ls i v = (let k = js_index (length ls) i in take k ls @ [v] @ drop k ls)"

definition js_splice_remove :: "jsstring list \<Rightarrow> int \<Rightarrow> jsstring list" where
  "js_splice_remove ls i = (let k = js_index (length ls) i in take k ls @ drop (Suc k) ls)"

text \<open>\<open>s.indexOf(pat)\<close> (None for -1), \<open>s.includes(pat)\<close>, and \<open>s.replace(pat, "")\<close> for a
  string pattern, which removes the first occurrence only.\<close>

fun indexOf :: "jsstring \<Rightarrow> jsstring \<Rightarrow> nat option" where
  "indexOf pat [] = (if pat = [] then Some 0 else None)"
| "indexOf pat (x # xs) =
     (if prefix pat (x # xs) then Some 0 else map_option Suc (indexOf pat xs))"

definition js_includes :: "jsstring \<Rightarrow> jsstring \<Rightarrow> bool" where
  "js_includes s pat = (indexOf pat s \<noteq> None)"

definition remove_first :: "jsstring \<Rightarrow> jsstring \<Rightarrow> jsstring" where
  "remove_first pat s =
     (case indexOf pat s of None \<Rightarrow> s | Some i \<Rightarrow> take i s @ drop (i + length pat) s)"

text \<open>\<open>s.split("\n")\<close> and \<open>lines.join("\n")\<close>.\<close>

fun split_on :: "nat \<Rightarrow> jsstring \<Rightarrow> jsstring list" where
  "split_on c [] = [[]]"
| "split_on c (x # xs) =
     (if x = c then [] # split_on c xs
      else (case split_on c xs of [] \<Rightarrow> [[x]] | l # ls \<Rightarrow> (x # l) # ls))"

fun join :: "jsstring \<Rightarrow> jsstring list \<Rightarrow> jsstring" where
  "join sep [] = []"
| "join sep [l] = l"
| "join sep (l # m # ls) = l @ sep @ join sep (m # ls)"

text \<open>\<open>text.replace(/\r\n/g, "\n")\<close>, \<open>.replace(/\r/g, "\n")\<close> and \<open>.replace(/\t/g, "    ")\<close>.\<close>

fun replace_crlf :: "jsstring \<Rightarrow> jsstring" where
  "replace_crlf (a # b # s) =
     (if a = CR \<and> b = NL then NL # replace_crlf s else a # replace_crlf (b # s))"
| "replace_crlf s = s"

definition replace_cr :: "jsstring \<Rightarrow> jsstring" where
  "replace_cr s = map (\<lambda>c. if c = CR then NL else c) s"

definition replace_tabs :: "jsstring \<Rightarrow> jsstring" where
  "replace_tabs s = concat (map (\<lambda>c. if c = TAB then replicate 4 SPACE else [c]) s)"

text \<open>The line-ending normalisation as the specification words it: in one pass, every
  \<open>\r\n\<close> and every remaining \<open>\r\<close> becomes \<open>\n\<close>.\<close>

fun normalize_newlines :: "jsstring \<Rightarrow> jsstring" where
  "normalize_newlines [] = []"
| "normalize_newlines [a] = (if a = CR then [NL] else [a])"
| "normalize_newlines (a # b # s) =
     (if a = CR \<and> b = NL then NL # normalize_newlines s
      else if a = CR then NL # normalize_newlines (b # s)
      else a # normalize_newlines (b # s))"

text \<open>\<open>for (const char of text)\<close> iterates by code point: a high surrogate followed by a low
  surrogate is one step of two code units.\<close>

definition isHighSurrogate :: "nat \<Rightarrow> bool" where
  "isHighSurrogate c = (55296 \<le> c \<and> c \<le> 56319)"

definition isLowSurrogate :: "nat \<Rightarrow> bool" where
  "isLowSurrogate c = (56320 \<le> c \<and> c \<le> 57343)"

fun codePoints :: "jsstring \<Rightarrow> jsstring list" where
  "codePoints (a # b # s) =
     (if isHighSurrogate a \<and> isLowSurrogate b then [a, b] # codePoints s
      else [a] # codePoints (b # s))"
| "codePoints [a] = [[a]]"
| "codePoints [] = []"

text \<open>Decimal rendering of a number inside a template literal.\<close>

fun digits_of :: "nat \<Rightarrow> jsstring" where
  "digits_of n = (if n < 10 then [48 + n] else digits_of (n div 10) @ [48 + n mod 10])"

declare digits_of.simps [simp del]

definition isDigit :: "nat \<Rightarrow> bool" where
  "isDigit c = (48 \<le> c \<and> c \<le> 57)"

section \<open>The editor's collaborators\<close>

text \<open>The named key bindings \<open>handleInput\<close> asks the shared keybinding table about.\<close>

datatype action =
    Action_copy | Action_selectCancel | Action_selectUp | Action_selectDown | Action_tab
  | Action_selectConfirm | Action_deleteToLineEnd | Action_deleteToLineStart
  | Action_deleteWordBackward | Action_deleteCharBackward | Action_deleteCharForward
  | Action_cursorLineStart | Action_cursorLineEnd | Action_cursorWordLeft
  | Action_cursorWordRight | Action_newLine | Action_submit | Action_cursorUp
  | Action_cursorDown | Action_cursorRight | Action_cursorLeft | Action_pageUp
  | Action_pageDown

datatype key_id = Key_shift_backspace | Key_shift_delete | Key_shift_space

datatype EditorBorderStyle = Border_rounded | Border_sharp | Border_none

record autocomplete_item =
  item_value :: jsstring
  item_label :: jsstring

record select_list =
  sl_items :: "autocomplete_item list"
  sl_selectedIndex :: nat

text \<open>The autocomplete provider is a callback object; \<open>getSuggestions\<close> returns the items and
  the prefix, or null.\<close>

record provider =
  getSuggestions :: "jsstring list \<Rightarrow> int \<Rightarrow> int \<Rightarrow> (autocomplete_item list \<times> jsstring) option"
  applyCompletion ::
    "jsstring list \<Rightarrow> int \<Rightarrow> int \<Rightarrow> autocomplete_item \<Rightarrow> jsstring \<Rightarrow> jsstring list \<times> int \<times> int"
  getForceFileSuggestions ::
    "(jsstring list \<Rightarrow> int \<Rightarrow> int \<Rightarrow> (autocomplete_item list \<times> jsstring) option) option"
  shouldTriggerFileCompletion :: "(jsstring list \<Rightarrow> int \<Rightarrow> int \<Rightarrow> bool) option"

text \<open>
  What editor.ts imports from files that are not part of the sources at hand
  (keybindings.js, keys.js, utils.js, tui.js, select-list.js) and the platform's grapheme
  segmenter are parameters of the model, collected in one record. Theorems hold for every
  such environment unless they say otherwise.
\<close>

record env =
  kb_matches :: "jsstring \<Rightarrow> action \<Rightarrow> bool"
  matchesKey :: "jsstring \<Rightarrow> key_id \<Rightarrow> bool"
  segment :: "jsstring \<Rightarrow> jsstring list"
  visibleWidth :: "jsstring \<Rightarrow> nat"
  isWhitespaceChar :: "jsstring \<Rightarrow> bool"
  isPunctuationChar :: "jsstring \<Rightarrow> bool"
  CURSOR_MARKER :: jsstring
  terminal_rows :: nat
  borderColor :: "jsstring \<Rightarrow> jsstring"
  sl_handleInput :: "jsstring \<Rightarrow> select_list \<Rightarrow> select_list"
  sl_getSelectedItem :: "select_list \<Rightarrow> autocomplete_item option"
  sl_render :: "select_list \<Rightarrow> int \<Rightarrow> jsstring list"

section \<open>The editor state\<close>

text \<open>
  The fields of class \<open>Editor\<close>, with \<open>state.lines\<close>, \<open>state.cursorLine\<close> and
  \<open>state.cursorCol\<close> flattened into the record. JavaScript numbers that the code subtracts
  from are integers here. \<open>pastes\<close> is a \<open>Map\<close>, iterated in insertion order, hence an
  association list. The two sinks \<open>onChange\<close> and \<open>onSubmit\<close> are modelled by the list of
  values the editor has passed to each, oldest first.
\<close>

record editor =
  lines :: "jsstring list"
  cursorLine :: int
  cursorCol :: int
  focused :: bool
  paddingX :: int
  borderStyle :: EditorBorderStyle
  lastWidth :: int
  scrollOffset :: int
  autocompleteProvider :: "provider option"
  autocompleteList :: "select_list option"
  isAutocompleting :: bool
  autocompletePrefix :: jsstring
  pastes :: "(nat \<times> jsstring) list"
  pasteCounter :: nat
  pasteBuffer :: jsstring
  isInPaste :: bool
  pendingShiftEnter :: bool
  history :: "jsstring list"
  historyIndex :: int
  disableSubmit :: bool
  changeLog :: "jsstring list"
  submitLog :: "jsstring list"

text \<open>The state a freshly constructed editor has (default options).\<close>

definition Editor_init :: editor where
  "Editor_init = \<lparr> lines = [[]], cursorLine = 0, cursorCol = 0, focused = False,
     paddingX = 0, borderStyle = Border_rounded, lastWidth = 80, scrollOffset = 0,
     autocompleteProvider = None, autocompleteList = None, isAutocompleting = False,
     autocompletePrefix = [], pastes = [], pasteCounter = 0, pasteBuffer = [],
     isInPaste = False, pendingShiftEnter = False, history = [], historyIndex = -1,
     disableSubmit = False, changeLog = [], submitLog = [] \<rparr>"

definition getText :: "editor \<Rightarrow> jsstring" where
  "getText s = join [NL] (lines s)"

definition onChange :: "jsstring \<Rightarrow> editor \<Rightarrow> editor" where
  "onChange t s = s\<lparr>changeLog := changeLog s @ [t]\<rparr>"

definition onSubmit :: "jsstring \<Rightarrow> editor \<Rightarrow> editor" where
  "onSubmit t s = s\<lparr>submitLog := submitLog s @ [t]\<rparr>"

subsection \<open>History\<close>

definition addToHistory :: "jsstring \<Rightarrow> editor \<Rightarrow> editor" where
  "addToHistory text s =
     (let trimmed = trim text in
      if trimmed = [] then s
      else if length (history s) > 0 \<and> hd (history s) = trimmed then s
      else let h = trimmed # history s
           in s\<lparr>history := (if length h > 100 then butlast h else h)\<rparr>)"

subsection \<open>Replacing the text\<close>

definition setTextInternal :: "jsstring \<Rightarrow> editor \<Rightarrow> editor" where
  "setTextInternal text s =
     (let ls = split_on NL (replace_cr (replace_crlf text));
          ls' = (if length ls = 0 then [[]] else ls);
          cl = int (length ls') - 1;
          s1 = s\<lparr>lines := ls', cursorLine := cl, cursorCol := int (length (js_line ls' cl)),
                 scrollOffset := 0\<rparr>
      in onChange (getText s1) s1)"

definition setText :: "jsstring \<Rightarrow> editor \<Rightarrow> editor" where
  "setText text s = setTextInternal text (s\<lparr>historyIndex := -1\<rparr>)"

section \<open>Word wrap\<close>

record TextChunk =
  chunk_text :: jsstring
  startIndex :: nat
  endIndex :: nat

record token =
  tok_text :: jsstring
  tok_startIndex :: nat
  tok_endIndex :: nat
  tok_isWhitespace :: bool

text \<open>The first loop of \<open>wordWrapLine\<close>: over the graphemes of the line, with the loop
  variables \<open>tokens\<close>, \<open>currentToken\<close>, \<open>tokenStart\<close>, \<open>inWhitespace\<close> and \<open>charIndex\<close>;
  the empty list is the code after the loop ("push final token").\<close>

fun tokenize :: "env \<Rightarrow> jsstring list \<Rightarrow> token list \<Rightarrow> jsstring \<Rightarrow> nat \<Rightarrow> bool \<Rightarrow> nat \<Rightarrow> token list"
  where
  "tokenize E [] tokens currentToken tokenStart inWhitespace charIndex =
     (if currentToken \<noteq> []
      then tokens @ [\<lparr>tok_text = currentToken, tok_startIndex = tokenStart,
                      tok_endIndex = charIndex, tok_isWhitespace = inWhitespace\<rparr>]
      else tokens)"
| "tokenize E (grapheme # gs) tokens currentToken tokenStart inWhitespace charIndex =
     (let graphemeIsWhitespace = isWhitespaceChar E grapheme in
      if currentToken = []
      then tokenize E gs tokens (currentToken @ grapheme) charIndex graphemeIsWhitespace
             (charIndex + length grapheme)
      else if graphemeIsWhitespace \<noteq> inWhitespace
      then tokenize E gs
             (tokens @ [\<lparr>tok_text = currentToken, tok_startIndex = tokenStart,
                          tok_endIndex = charIndex, tok_isWhitespace = inWhitespace\<rparr>])
             grapheme charIndex graphemeIsWhitespace (charIndex + length grapheme)
      else tokenize E gs tokens (currentToken @ grapheme) tokenStart inWhitespace
             (charIndex + length grapheme))"

text \<open>The inner loop that breaks a token wider than \<open>maxWidth\<close> grapheme by grapheme, with
  the loop variables \<open>chunks\<close>, \<open>tokenChunk\<close>, \<open>tokenChunkWidth\<close>, \<open>tokenChunkStart\<close> and
  \<open>tokenCharIndex\<close>.\<close>

fun break_token ::
  "env \<Rightarrow> int \<Rightarrow> jsstring list \<Rightarrow> TextChunk list \<Rightarrow> jsstring \<Rightarrow> nat \<Rightarrow> nat \<Rightarrow> nat
     \<Rightarrow> TextChunk list \<times> jsstring \<times> nat \<times> nat" where
  "break_token E maxWidth [] chunks tokenChunk tokenChunkWidth tokenChunkStart tokenCharIndex =
     (chunks, tokenChunk, tokenChunkWidth, tokenChunkStart)"
| "break_token E maxWidth (grapheme # gs) chunks tokenChunk tokenChunkWidth tokenChunkStart
     tokenCharIndex =
     (let graphemeWidth = visibleWidth E grapheme in
      if int (tokenChunkWidth + graphemeWidth) > maxWidth \<and> tokenChunk \<noteq> []
      then break_token E maxWidth gs
             (chunks @ [\<lparr>chunk_text = tokenChunk, startIndex = tokenChunkStart,
                          endIndex = tokenCharIndex\<rparr>])
             grapheme graphemeWidth tokenCharIndex (tokenCharIndex + length grapheme)
      else break_token E maxWidth gs chunks (tokenChunk @ grapheme)
             (tokenChunkWidth + graphemeWidth) tokenChunkStart
             (tokenCharIndex + length grapheme))"

text \<open>The second loop of \<open>wordWrapLine\<close>: over the tokens, with the loop variables \<open>chunks\<close>,
  \<open>currentChunk\<close>, \<open>currentWidth\<close>, \<open>chunkStartIndex\<close> and \<open>atLineStart\<close>.\<close>

fun wrap_tokens ::
  "env \<Rightarrow> int \<Rightarrow> token list \<Rightarrow> TextChunk list \<Rightarrow> jsstring \<Rightarrow> nat \<Rightarrow> nat \<Rightarrow> bool
     \<Rightarrow> TextChunk list \<times> jsstring \<times> nat" where
  "wrap_tokens E maxWidth [] chunks currentChunk currentWidth chunkStartIndex atLineStart =
     (chunks, currentChunk, chunkStartIndex)"
| "wrap_tokens E maxWidth (t # ts) chunks currentChunk currentWidth chunkStartIndex atLineStart =
     (let tokenWidth = visibleWidth E (tok_text t) in
      if atLineStart \<and> tok_isWhitespace t
      then wrap_tokens E maxWidth ts chunks currentChunk currentWidth (tok_endIndex t) atLineStart
      else if int tokenWidth > maxWidth
      then
        (let pushed = (currentChunk \<noteq> []);
             chunks1 = (if pushed
                        then chunks @ [\<lparr>chunk_text = currentChunk, startIndex = chunkStartIndex,
                                         endIndex = tok_startIndex t\<rparr>]
                        else chunks);
             currentChunk1 = (if pushed then [] else currentChunk);
             currentWidth1 = (if pushed then 0 else currentWidth);
             chunkStartIndex1 = (if pushed then tok_startIndex t else chunkStartIndex);
             r = break_token E maxWidth (segment E (tok_text t)) chunks1 [] 0
                   (tok_startIndex t) (tok_startIndex t);
             tokenChunk = fst (snd r)
         in if tokenChunk \<noteq> []
            then wrap_tokens E maxWidth ts (fst r) tokenChunk (fst (snd (snd r)))
                   (snd (snd (snd r))) False
            else wrap_tokens E maxWidth ts (fst r) currentChunk1 currentWidth1
                   chunkStartIndex1 False)
      else if int (currentWidth + tokenWidth) > maxWidth
      then
        (let trimmedChunk = trimEnd currentChunk;
             chunks1 = (if trimmedChunk \<noteq> [] \<or> length chunks = 0
                        then chunks @ [\<lparr>chunk_text = trimmedChunk, startIndex = chunkStartIndex,
                                         endIndex = chunkStartIndex + length currentChunk\<rparr>]
                        else chunks)
         in if tok_isWhitespace t
            then wrap_tokens E maxWidth ts chunks1 [] 0 (tok_endIndex t) True
            else wrap_tokens E maxWidth ts chunks1 (tok_text t) tokenWidth (tok_startIndex t)
                   False)
      else wrap_tokens E maxWidth ts chunks (currentChunk @ tok_text t)
             (currentWidth + tokenWidth) chunkStartIndex False)"

definition empty_chunk :: TextChunk where
  "empty_chunk = \<lparr>chunk_text = [], startIndex = 0, endIndex = 0\<rparr>"

definition wordWrapLine :: "env \<Rightarrow> jsstring \<Rightarrow> int \<Rightarrow> TextChunk list" where
  "wordWrapLine E line maxWidth =
     (if line = [] \<or> maxWidth \<le> 0 then [empty_chunk]
      else if int (visibleWidth E line) \<le> maxWidth
      then [\<lparr>chunk_text = line, startIndex = 0, endIndex = length line\<rparr>]
      else
        (let tokens = tokenize E (segment E line) [] [] 0 False 0;
             r = wrap_tokens E maxWidth tokens [] [] 0 0 True;
             currentChunk = fst (snd r);
             chunks = (if currentChunk \<noteq> []
                       then fst r @ [\<lparr>chunk_text = currentChunk, startIndex = snd (snd r),
                                        endIndex = length line\<rparr>]
                       else fst r)
         in if length chunks > 0 then chunks else [empty_chunk]))"

section \<open>Kitty CSI-u sequences\<close>

text \<open>
  \<open>KITTY_CSI_U_REGEX = /^\x1b\[(\d+)(?::(\d*))?(?::(\d+))?(?:;(\d+))?(?::(\d+))?u$/\<close>.
  The matcher below reads the groups from left to right, each optional group taken when it
  can be. That is what the backtracking matcher finds: a digit run is always followed by one
  of \<open>:\<close>, \<open>;\<close>, \<open>u\<close>, so giving back digits never helps, and skipping an optional group
  that could be taken leaves its separator for a later group that then sees the same rest.
  The result is the groups 1 to 5, None for a group that did not take part.
\<close>

definition opt_group :: "nat \<Rightarrow> jsstring \<Rightarrow> jsstring option \<times> jsstring" where
  "opt_group sep r =
     (case r of
        [] \<Rightarrow> (None, r)
      | c # r' \<Rightarrow> if c = sep \<and> takeWhile isDigit r' \<noteq> []
                  then (Some (takeWhile isDigit r'), dropWhile isDigit r') else (None, r))"

definition opt_group_star :: "nat \<Rightarrow> jsstring \<Rightarrow> jsstring option \<times> jsstring" where
  "opt_group_star sep r =
     (case r of
        [] \<Rightarrow> (None, r)
      | c # r' \<Rightarrow> if c = sep then (Some (takeWhile isDigit r'), dropWhile isDigit r')
                  else (None, r))"

definition kitty_match ::
  "jsstring \<Rightarrow> (jsstring \<times> jsstring option \<times> jsstring option \<times> jsstring option \<times> jsstring option) option"
  where
  "kitty_match data =
     (case data of
        e # b # r0 \<Rightarrow>
          if e = 27 \<and> b = 91 \<and> takeWhile isDigit r0 \<noteq> [] then
            (let g1 = takeWhile isDigit r0;
                 m2 = opt_group_star 58 (dropWhile isDigit r0);
                 m3 = opt_group 58 (snd m2);
                 m4 = opt_group 59 (snd m3);
                 m5 = opt_group 58 (snd m4)
             in if snd m5 = [117] then Some (g1, fst m2, fst m3, fst m4, fst m5) else None)
          else None
      | _ \<Rightarrow> None)"

text \<open>
  \<open>Number.parseInt(digits, 10)\<close> on a string of decimal digits. JavaScript numbers are
  doubles, so the result is the integer the digits stand for (\<open>decimal\<close>) rounded to the
  nearest number with a 53-bit significand, a tie going to the even significand, and
  \<open>Infinity\<close> (here \<open>None\<close>) from \<open>2^1024 - 2^970\<close> on. \<open>round_double\<close> is that rounding on
  the natural numbers: below \<open>2^53\<close> every integer is a double; above, with \<open>e\<close> the number
  of bits beyond 53, the doubles are the multiples of \<open>2^e\<close>. \<open>Number.isFinite\<close> of a result
  is being different from \<open>None\<close>.
\<close>

definition decimal :: "jsstring \<Rightarrow> nat" where
  "decimal ds = foldl (\<lambda>n d. 10 * n + (d - 48)) 0 ds"

fun bit_length :: "nat \<Rightarrow> nat" where
  "bit_length n = (if n = 0 then 0 else Suc (bit_length (n div 2)))"

declare bit_length.simps [simp del]

definition round_double :: "nat \<Rightarrow> nat" where
  "round_double n =
     (if n < 2 ^ 53 then n
      else
        (let e = bit_length n - 53;
             q = n div 2 ^ e;
             r = n mod 2 ^ e
         in (if 2 * r > 2 ^ e \<or> (2 * r = 2 ^ e \<and> odd q) then q + 1 else q) * 2 ^ e))"

definition INFINITY_FROM :: nat where
  "INFINITY_FROM = 2 ^ 1024 - 2 ^ 970"

definition parseInt10 :: "jsstring \<Rightarrow> nat option" where
  "parseInt10 ds = (if decimal ds < INFINITY_FROM then Some (round_double (decimal ds)) else None)"

definition number_isFinite :: "nat option \<Rightarrow> bool" where
  "number_isFinite x = (x \<noteq> None)"

text \<open>\<open>modValue - 1\<close> for a finite \<open>modValue\<close>: the difference is rounded like every result of
  double arithmetic; from \<open>0\<close> it is \<open>-1\<close>.\<close>

definition minus_one :: "nat \<Rightarrow> int" where
  "minus_one m = (if m = 0 then -1 else int (round_double (m - 1)))"

text \<open>\<open>String.fromCodePoint\<close>: UTF-16 encoding; a RangeError (None) above U+10FFFF.\<close>

definition fromCodePoint :: "nat \<Rightarrow> jsstring option" where
  "fromCodePoint cp =
     (if cp \<le> 65535 then Some [cp]
      else if cp \<le> 1114111
      then Some [55296 + (cp - 65536) div 1024, 56320 + (cp - 65536) mod 1024]
      else None)"

definition KITTY_MOD_SHIFT :: int where "KITTY_MOD_SHIFT = 1"
definition KITTY_MOD_ALT :: int where "KITTY_MOD_ALT = 2"
definition KITTY_MOD_CTRL :: int where "KITTY_MOD_CTRL = 4"

text \<open>The operator \<open>&\<close> works on the 32-bit integer of its operands; the bits 1, 2 and 4 the
  code tests are those of the integer itself, which is what \<open>and\<close> on \<open>int\<close> gives, also for
  \<open>-1\<close>. \<open>shiftedKey\<close> is \<open>undefined\<close> (the outer \<open>None\<close>) or a number, which may be
  \<open>Infinity\<close>.\<close>

definition decodeKittyPrintable :: "jsstring \<Rightarrow> jsstring option" where
  "decodeKittyPrintable data =
     (case kitty_match data of
        None \<Rightarrow> None
      | Some (g1, g2, g3, g4, g5) \<Rightarrow>
          (let codepoint = parseInt10 g1 in
           if \<not> number_isFinite codepoint then None
           else
             (let shiftedKey = (case g2 of None \<Rightarrow> None
                                | Some d \<Rightarrow> if length d > 0 then Some (parseInt10 d) else None);
                  modValue = (case g4 of None \<Rightarrow> Some 1 | Some d \<Rightarrow> parseInt10 d);
                  modifier = (case modValue of Some m \<Rightarrow> minus_one m | None \<Rightarrow> 0)
              in if and modifier (or KITTY_MOD_ALT KITTY_MOD_CTRL) \<noteq> 0 then None
                 else
                   (let effectiveCodepoint =
                          (case shiftedKey of
                             Some k \<Rightarrow> if and modifier KITTY_MOD_SHIFT \<noteq> 0 then k else codepoint
                           | None \<Rightarrow> codepoint)
                    in case effectiveCodepoint of
                         None \<Rightarrow> None
                       | Some c \<Rightarrow> if c < 32 then None else fromCodePoint c))))"

section \<open>Autocomplete\<close>

definition cancelAutocomplete :: "editor \<Rightarrow> editor" where
  "cancelAutocomplete s =
     s\<lparr>isAutocompleting := False, autocompleteList := None, autocompletePrefix := []\<rparr>"

text \<open>\<open>new SelectList(items, 5, theme)\<close>: a list with its selection on the first item.\<close>

definition new_SelectList :: "autocomplete_item list \<Rightarrow> select_list" where
  "new_SelectList items = \<lparr>sl_items = items, sl_selectedIndex = 0\<rparr>"

definition show_suggestions ::
  "(autocomplete_item list \<times> jsstring) option \<Rightarrow> editor \<Rightarrow> editor" where
  "show_suggestions suggestions s =
     (case suggestions of
        Some (items, pre) \<Rightarrow>
          if length items > 0
          then s\<lparr>autocompletePrefix := pre, autocompleteList := Some (new_SelectList items),
                 isAutocompleting := True\<rparr>
          else cancelAutocomplete s
      | None \<Rightarrow> cancelAutocomplete s)"

definition tryTriggerAutocomplete :: "bool \<Rightarrow> editor \<Rightarrow> editor" where
  "tryTriggerAutocomplete explicitTab s =
     (case autocompleteProvider s of
        None \<Rightarrow> s
      | Some p \<Rightarrow>
          if explicitTab \<and>
             \<not> (case shouldTriggerFileCompletion p of
                   None \<Rightarrow> True
                 | Some f \<Rightarrow> f (lines s) (cursorLine s) (cursorCol s))
          then s
          else show_suggestions (getSuggestions p (lines s) (cursorLine s) (cursorCol s)) s)"

definition updateAutocomplete :: "editor \<Rightarrow> editor" where
  "updateAutocomplete s =
     (case autocompleteProvider s of
        None \<Rightarrow> s
      | Some p \<Rightarrow>
          if \<not> isAutocompleting s then s
          else (case getSuggestions p (lines s) (cursorLine s) (cursorCol s) of
                  Some (items, pre) \<Rightarrow>
                    if length items > 0
                    then s\<lparr>autocompletePrefix := pre,
                           autocompleteList := Some (new_SelectList items)\<rparr>
                    else cancelAutocomplete s
                | None \<Rightarrow> cancelAutocomplete s))"

definition forceFileAutocomplete :: "editor \<Rightarrow> editor" where
  "forceFileAutocomplete s =
     (case autocompleteProvider s of
        None \<Rightarrow> s
      | Some p \<Rightarrow>
          (case getForceFileSuggestions p of
             None \<Rightarrow> tryTriggerAutocomplete True s
           | Some f \<Rightarrow> show_suggestions (f (lines s) (cursorLine s) (cursorCol s)) s))"

definition handleSlashCommandCompletion :: "editor \<Rightarrow> editor" where
  "handleSlashCommandCompletion s = tryTriggerAutocomplete True s"

text \<open>\<open>textBeforeCursor.trimStart().startsWith("/")\<close>.\<close>

definition in_slash_context :: "jsstring \<Rightarrow> bool" where
  "in_slash_context textBeforeCursor = prefix [47] (trimStart textBeforeCursor)"

text \<open>\<open>textBeforeCursor.match(/(?:^|[\s])@[^\s]*$/)\<close>: some \<open>@\<close> at the start of the text or
  after white space, with no white space from there to the end. The flag says whether the
  position at hand is the start or follows white space.\<close>

fun at_reference :: "bool \<Rightarrow> jsstring \<Rightarrow> bool" where
  "at_reference b [] = False"
| "at_reference b (c # cs) =
     ((b \<and> c = 64 \<and> \<not> list_ex isJsSpace cs) \<or> at_reference (isJsSpace c) cs)"

definition in_reference_context :: "jsstring \<Rightarrow> bool" where
  "in_reference_context textBeforeCursor = at_reference True textBeforeCursor"

definition handleTabCompletion :: "editor \<Rightarrow> editor" where
  "handleTabCompletion s =
     (case autocompleteProvider s of
        None \<Rightarrow> s
      | Some p \<Rightarrow>
          (let currentLine = js_line (lines s) (cursorLine s);
               beforeCursor = js_slice currentLine 0 (cursorCol s)
           in if in_slash_context beforeCursor \<and> \<not> js_includes (trimStart beforeCursor) [32]
              then handleSlashCommandCompletion s
              else forceFileAutocomplete s))"

definition isAtStartOfMessage :: "editor \<Rightarrow> bool" where
  "isAtStartOfMessage s =
     (let currentLine = js_line (lines s) (cursorLine s);
          beforeCursor = js_slice currentLine 0 (cursorCol s)
      in trim beforeCursor = [] \<or> trim beforeCursor = [47])"

text \<open>The re-trigger after a deletion (the end of \<open>handleBackspace\<close> and of
  \<open>handleForwardDelete\<close>).\<close>

definition retrigger_autocomplete :: "editor \<Rightarrow> editor" where
  "retrigger_autocomplete s =
     (if isAutocompleting s then updateAutocomplete s
      else
        (let currentLine = js_line (lines s) (cursorLine s);
             textBeforeCursor = js_slice currentLine 0 (cursorCol s)
         in if in_slash_context textBeforeCursor then tryTriggerAutocomplete False s
            else if in_reference_context textBeforeCursor then tryTriggerAutocomplete False s
            else s))"

section \<open>Editing operations\<close>

text \<open>\<open>/[a-zA-Z0-9.\-_]/\<close> and \<open>/\w/\<close>.\<close>

definition isAlnum :: "nat \<Rightarrow> bool" where
  "isAlnum c = ((97 \<le> c \<and> c \<le> 122) \<or> (65 \<le> c \<and> c \<le> 90) \<or> isDigit c)"

definition isCompletionChar :: "nat \<Rightarrow> bool" where
  "isCompletionChar c = (isAlnum c \<or> c = 46 \<or> c = 45 \<or> c = 95)"

definition isWordChar :: "nat \<Rightarrow> bool" where
  "isWordChar c = (isAlnum c \<or> c = 95)"

text \<open>\<open>insertCharacter\<close> in two parts: the splice at the cursor with the call of the change
  sink, and the check "if we should trigger or update autocomplete" made on the state the
  first part leaves.\<close>

definition insert_text :: "jsstring \<Rightarrow> editor \<Rightarrow> editor" where
  "insert_text char s =
     (let s1 = s\<lparr>historyIndex := -1\<rparr>;
          line = js_line (lines s1) (cursorLine s1);
          before_text = js_slice line 0 (cursorCol s1);
          after = js_slice_from line (cursorCol s1);
          s2 = s1\<lparr>lines := js_set (lines s1) (cursorLine s1) (before_text @ char @ after),
                  cursorCol := cursorCol s1 + int (length char)\<rparr>
      in onChange (getText s2) s2)"

definition insert_autocomplete :: "jsstring \<Rightarrow> editor \<Rightarrow> editor" where
  "insert_autocomplete char s3 =
     (if \<not> isAutocompleting s3 then
        (if char = [47] \<and> isAtStartOfMessage s3 then tryTriggerAutocomplete False s3
         else if char = [64] then
           (let currentLine = js_line (lines s3) (cursorLine s3);
                textBeforeCursor = js_slice currentLine 0 (cursorCol s3);
                charBeforeAt = js_charAt textBeforeCursor (int (length textBeforeCursor) - 2)
            in if length textBeforeCursor = 1 \<or> charBeforeAt = Some 32 \<or> charBeforeAt = Some 9
               then tryTriggerAutocomplete False s3 else s3)
         else if list_ex isCompletionChar char then
           (let currentLine = js_line (lines s3) (cursorLine s3);
                textBeforeCursor = js_slice currentLine 0 (cursorCol s3)
            in if in_slash_context textBeforeCursor then tryTriggerAutocomplete False s3
               else if in_reference_context textBeforeCursor
               then tryTriggerAutocomplete False s3
               else s3)
         else s3)
      else updateAutocomplete s3)"

definition insertCharacter :: "jsstring \<Rightarrow> editor \<Rightarrow> editor" where
  "insertCharacter char s = insert_autocomplete char (insert_text char s)"

text \<open>\<open>for (const char of text) this.insertCharacter(char)\<close>.\<close>

definition insertTextAtCursor :: "jsstring \<Rightarrow> editor \<Rightarrow> editor" where
  "insertTextAtCursor text s = fold insertCharacter (codePoints text) s"

text \<open>The marker of a large paste: \<open>[paste #<id> +<n> lines]\<close> or \<open>[paste #<id> <n> chars]\<close>.\<close>

definition paste_marker :: "nat \<Rightarrow> nat \<Rightarrow> nat \<Rightarrow> jsstring" where
  "paste_marker pasteId numLines totalChars =
     (if numLines > 10
      then str ''[paste #'' @ digits_of pasteId @ str '' +'' @ digits_of numLines @ str '' lines]''
      else str ''[paste #'' @ digits_of pasteId @ str '' '' @ digits_of totalChars
             @ str '' chars]'')"

text \<open>\<open>pastes.set(id, text)\<close> on a Map: a present key keeps its place.\<close>

fun map_set :: "nat \<Rightarrow> jsstring \<Rightarrow> (nat \<times> jsstring) list \<Rightarrow> (nat \<times> jsstring) list" where
  "map_set k v [] = [(k, v)]"
| "map_set k v ((k', v') # m) = (if k' = k then (k, v) # m else (k', v') # map_set k v m)"

text \<open>The cleaning at the start of \<open>handlePaste\<close>: line endings, tabs, and the filter that
  keeps \<open>\n\<close> and every code unit from 32 on; then the space put before a pasted path.\<close>

definition clean_paste :: "jsstring \<Rightarrow> jsstring" where
  "clean_paste pastedText =
     filter (\<lambda>c. c = NL \<or> c \<ge> 32) (replace_tabs (replace_cr (replace_crlf pastedText)))"

definition filtered_paste :: "jsstring \<Rightarrow> editor \<Rightarrow> jsstring" where
  "filtered_paste pastedText s =
     (let filteredText = clean_paste pastedText in
      if (case filteredText of [] \<Rightarrow> False | c # _ \<Rightarrow> c = 47 \<or> c = 126 \<or> c = 46) then
        (let currentLine = js_line (lines s) (cursorLine s);
             charBeforeCursor = (if cursorCol s > 0 then js_charAt currentLine (cursorCol s - 1)
                                 else None)
         in (case charBeforeCursor of
               None \<Rightarrow> filteredText
             | Some c \<Rightarrow> if isWordChar c then SPACE # filteredText else filteredText))
      else filteredText)"

definition handlePaste :: "jsstring \<Rightarrow> editor \<Rightarrow> editor" where
  "handlePaste pastedText s0 =
     (let s = s0\<lparr>historyIndex := -1\<rparr>;
          filteredText = filtered_paste pastedText s;
          pastedLines = split_on NL filteredText;
          totalChars = length filteredText
      in if length pastedLines > 10 \<or> totalChars > 1000 then
           (let pasteId = pasteCounter s + 1;
                s1 = s\<lparr>pasteCounter := pasteId, pastes := map_set pasteId filteredText (pastes s)\<rparr>;
                marker = paste_marker pasteId (length pastedLines) totalChars
            in fold insertCharacter (codePoints marker) s1)
         else if length pastedLines = 1 then
           fold insertCharacter (codePoints (hd pastedLines)) s
         else
           (let currentLine = js_line (lines s) (cursorLine s);
                beforeCursor = js_slice currentLine 0 (cursorCol s);
                afterCursor = js_slice_from currentLine (cursorCol s);
                newLines =
                  map (js_line (lines s)) [0 .. cursorLine s - 1]
                  @ [beforeCursor @ hd pastedLines]
                  @ butlast (tl pastedLines)
                  @ [last pastedLines @ afterCursor]
                  @ map (js_line (lines s)) [cursorLine s + 1 .. int (length (lines s)) - 1];
                s1 = s\<lparr>lines := newLines,
                       cursorLine := cursorLine s + (int (length pastedLines) - 1),
                       cursorCol := int (length (last pastedLines))\<rparr>
            in onChange (getText s1) s1))"

definition addNewLine :: "editor \<Rightarrow> editor" where
  "addNewLine s0 =
     (let s = s0\<lparr>historyIndex := -1\<rparr>;
          currentLine = js_line (lines s) (cursorLine s);
          before_text = js_slice currentLine 0 (cursorCol s);
          after = js_slice_from currentLine (cursorCol s);
          ls1 = js_set (lines s) (cursorLine s) before_text;
          ls2 = js_splice_insert ls1 (cursorLine s + 1) after;
          s1 = s\<lparr>lines := ls2, cursorLine := cursorLine s + 1, cursorCol := 0\<rparr>
      in onChange (getText s1) s1)"

text \<open>Joining the cursor's line to the one before it, as backspace, delete-to-line-start and
  delete-word-backward do at column 0 of a line that is not the first.\<close>

definition merge_with_previous :: "editor \<Rightarrow> editor" where
  "merge_with_previous s =
     (let currentLine = js_line (lines s) (cursorLine s);
          previousLine = js_line (lines s) (cursorLine s - 1);
          ls1 = js_set (lines s) (cursorLine s - 1) (previousLine @ currentLine);
          ls2 = js_splice_remove ls1 (cursorLine s)
      in s\<lparr>lines := ls2, cursorLine := cursorLine s - 1, cursorCol := int (length previousLine)\<rparr>)"

text \<open>Joining the next line to the cursor's line, as forward delete and delete-to-line-end
  do at the end of a line that is not the last.\<close>

definition merge_with_next :: "editor \<Rightarrow> editor" where
  "merge_with_next s =
     (let currentLine = js_line (lines s) (cursorLine s);
          nextLine = js_line (lines s) (cursorLine s + 1);
          ls1 = js_set (lines s) (cursorLine s) (currentLine @ nextLine);
          ls2 = js_splice_remove ls1 (cursorLine s + 1)
      in s\<lparr>lines := ls2\<rparr>)"

definition handleBackspace :: "env \<Rightarrow> editor \<Rightarrow> editor" where
  "handleBackspace E s0 =
     (let s = s0\<lparr>historyIndex := -1\<rparr>;
          s1 = (if cursorCol s > 0 then
                  (let line = js_line (lines s) (cursorLine s);
                       beforeCursor = js_slice line 0 (cursorCol s);
                       graphemes = segment E beforeCursor;
                       graphemeLength = (if graphemes = [] then 1 else int (length (last graphemes)));
                       before_text = js_slice line 0 (cursorCol s - graphemeLength);
                       after = js_slice_from line (cursorCol s)
                   in s\<lparr>lines := js_set (lines s) (cursorLine s) (before_text @ after),
                         cursorCol := cursorCol s - graphemeLength\<rparr>)
                else if cursorLine s > 0 then merge_with_previous s
                else s)
      in retrigger_autocomplete (onChange (getText s1) s1))"

definition moveToLineStart :: "editor \<Rightarrow> editor" where
  "moveToLineStart s = s\<lparr>cursorCol := 0\<rparr>"

definition moveToLineEnd :: "editor \<Rightarrow> editor" where
  "moveToLineEnd s = s\<lparr>cursorCol := int (length (js_line (lines s) (cursorLine s)))\<rparr>"

definition deleteToStartOfLine :: "editor \<Rightarrow> editor" where
  "deleteToStartOfLine s0 =
     (let s = s0\<lparr>historyIndex := -1\<rparr>;
          currentLine = js_line (lines s) (cursorLine s);
          s1 = (if cursorCol s > 0
                then s\<lparr>lines := js_set (lines s) (cursorLine s)
                                  (js_slice_from currentLine (cursorCol s)),
                       cursorCol := 0\<rparr>
                else if cursorLine s > 0 then merge_with_previous s
                else s)
      in onChange (getText s1) s1)"

definition deleteToEndOfLine :: "editor \<Rightarrow> editor" where
  "deleteToEndOfLine s0 =
     (let s = s0\<lparr>historyIndex := -1\<rparr>;
          currentLine = js_line (lines s) (cursorLine s);
          s1 = (if cursorCol s < int (length currentLine)
                then s\<lparr>lines := js_set (lines s) (cursorLine s)
                                  (js_slice currentLine 0 (cursorCol s))\<rparr>
                else if cursorLine s < int (length (lines s)) - 1 then merge_with_next s
                else s)
      in onChange (getText s1) s1)"

definition handleForwardDelete :: "env \<Rightarrow> editor \<Rightarrow> editor" where
  "handleForwardDelete E s0 =
     (let s = s0\<lparr>historyIndex := -1\<rparr>;
          currentLine = js_line (lines s) (cursorLine s);
          s1 = (if cursorCol s < int (length currentLine) then
                  (let afterCursor = js_slice_from currentLine (cursorCol s);
                       graphemes = segment E afterCursor;
                       graphemeLength = (if graphemes = [] then 1 else int (length (hd graphemes)));
                       before_text = js_slice currentLine 0 (cursorCol s);
                       after = js_slice_from currentLine (cursorCol s + graphemeLength)
                   in s\<lparr>lines := js_set (lines s) (cursorLine s) (before_text @ after)\<rparr>)
                else if cursorLine s < int (length (lines s)) - 1 then merge_with_next s
                else s)
      in retrigger_autocomplete (onChange (getText s1) s1))"

section \<open>Cursor motion\<close>

text \<open>The loops of \<open>moveWordBackwards\<close> pop graphemes off the end of the text before the
  cursor while a test holds, moving \<open>newCol\<close> left; the list is held last grapheme first.\<close>

fun skip_back :: "(jsstring \<Rightarrow> bool) \<Rightarrow> jsstring list \<Rightarrow> int \<Rightarrow> jsstring list \<times> int" where
  "skip_back P [] newCol = ([], newCol)"
| "skip_back P (g # gs) newCol =
     (if P g then skip_back P gs (newCol - int (length g)) else (g # gs, newCol))"

definition moveWordBackwards :: "env \<Rightarrow> editor \<Rightarrow> editor" where
  "moveWordBackwards E s =
     (let currentLine = js_line (lines s) (cursorLine s) in
      if cursorCol s = 0 then
        (if cursorLine s > 0
         then s\<lparr>cursorLine := cursorLine s - 1,
                cursorCol := int (length (js_line (lines s) (cursorLine s - 1)))\<rparr>
         else s)
      else
        (let textBeforeCursor = js_slice currentLine 0 (cursorCol s);
             graphemes = rev (segment E textBeforeCursor);
             r1 = skip_back (isWhitespaceChar E) graphemes (cursorCol s);
             r2 = (case fst r1 of
                     [] \<Rightarrow> r1
                   | lastGrapheme # _ \<Rightarrow>
                       if isPunctuationChar E lastGrapheme
                       then skip_back (isPunctuationChar E) (fst r1) (snd r1)
                       else skip_back (\<lambda>g. \<not> isWhitespaceChar E g \<and> \<not> isPunctuationChar E g)
                              (fst r1) (snd r1))
         in s\<lparr>cursorCol := snd r2\<rparr>))"

text \<open>The loops of \<open>moveWordForwards\<close> advance an iterator over the graphemes after the
  cursor while a test holds, moving \<open>cursorCol\<close> right.\<close>

fun skip_forward :: "(jsstring \<Rightarrow> bool) \<Rightarrow> jsstring list \<Rightarrow> int \<Rightarrow> jsstring list \<times> int" where
  "skip_forward P [] col = ([], col)"
| "skip_forward P (g # gs) col =
     (if P g then skip_forward P gs (col + int (length g)) else (g # gs, col))"

definition moveWordForwards :: "env \<Rightarrow> editor \<Rightarrow> editor" where
  "moveWordForwards E s =
     (let currentLine = js_line (lines s) (cursorLine s) in
      if cursorCol s \<ge> int (length currentLine) then
        (if cursorLine s < int (length (lines s)) - 1
         then s\<lparr>cursorLine := cursorLine s + 1, cursorCol := 0\<rparr>
         else s)
      else
        (let textAfterCursor = js_slice_from currentLine (cursorCol s);
             r1 = skip_forward (isWhitespaceChar E) (segment E textAfterCursor) (cursorCol s);
             r2 = (case fst r1 of
                     [] \<Rightarrow> r1
                   | firstGrapheme # _ \<Rightarrow>
                       if isPunctuationChar E firstGrapheme
                       then skip_forward (isPunctuationChar E) (fst r1) (snd r1)
                       else skip_forward (\<lambda>g. \<not> isWhitespaceChar E g \<and> \<not> isPunctuationChar E g)
                              (fst r1) (snd r1))
         in s\<lparr>cursorCol := snd r2\<rparr>))"

definition deleteWordBackwards :: "env \<Rightarrow> editor \<Rightarrow> editor" where
  "deleteWordBackwards E s0 =
     (let s = s0\<lparr>historyIndex := -1\<rparr>;
          currentLine = js_line (lines s) (cursorLine s);
          s1 = (if cursorCol s = 0 then
                  (if cursorLine s > 0 then merge_with_previous s else s)
                else
                  (let oldCursorCol = cursorCol s;
                       moved = moveWordBackwards E s;
                       deleteFrom = cursorCol moved
                   in moved\<lparr>lines := js_set (lines moved) (cursorLine moved)
                                        (js_slice currentLine 0 deleteFrom
                                         @ js_slice_from currentLine oldCursorCol),
                             cursorCol := deleteFrom\<rparr>))
      in onChange (getText s1) s1)"

record visual_line =
  logicalLine :: nat
  startCol :: nat
  vl_length :: nat

definition buildVisualLineMap :: "env \<Rightarrow> int \<Rightarrow> editor \<Rightarrow> visual_line list" where
  "buildVisualLineMap E width s =
     concat (map (\<lambda>i.
       (let line = lines s ! i in
        if length line = 0 then [\<lparr>logicalLine = i, startCol = 0, vl_length = 0\<rparr>]
        else if int (visibleWidth E line) \<le> width
        then [\<lparr>logicalLine = i, startCol = 0, vl_length = length line\<rparr>]
        else map (\<lambda>chunk. \<lparr>logicalLine = i, startCol = startIndex chunk,
                             vl_length = endIndex chunk - startIndex chunk\<rparr>)
               (wordWrapLine E line width)))
       [0 ..< length (lines s)])"

text \<open>The loop of \<open>findCurrentVisualLine\<close> from index \<open>i\<close> on; None when it runs to the end
  (the fallback \<open>visualLines.length - 1\<close> is then taken).\<close>

fun find_visual_line :: "editor \<Rightarrow> visual_line list \<Rightarrow> nat \<Rightarrow> nat option" where
  "find_visual_line s [] i = None"
| "find_visual_line s (vl # rest) i =
     (if int (logicalLine vl) = cursorLine s then
        (let colInSegment = cursorCol s - int (startCol vl);
             isLastSegmentOfLine =
               (case rest of [] \<Rightarrow> True | nxt # _ \<Rightarrow> logicalLine nxt \<noteq> logicalLine vl)
         in if colInSegment \<ge> 0 \<and>
               (colInSegment < int (vl_length vl) \<or>
                (isLastSegmentOfLine \<and> colInSegment \<le> int (vl_length vl)))
            then Some i
            else find_visual_line s rest (Suc i))
      else find_visual_line s rest (Suc i))"

definition findCurrentVisualLine :: "editor \<Rightarrow> visual_line list \<Rightarrow> int" where
  "findCurrentVisualLine s visualLines =
     (case find_visual_line s visualLines 0 of
        Some i \<Rightarrow> int i
      | None \<Rightarrow> int (length visualLines) - 1)"

text \<open>\<open>visualLines[i]\<close>: \<open>undefined\<close> (None) outside the array.\<close>

definition vl_at :: "visual_line list \<Rightarrow> int \<Rightarrow> visual_line option" where
  "vl_at vls i = (if 0 \<le> i \<and> i < int (length vls) then Some (vls ! nat i) else None)"

text \<open>The move of the cursor onto a visual line, keeping the column within the line: the
  body shared by the vertical branch of \<open>moveCursor\<close> and by \<open>pageScroll\<close>.\<close>

definition move_to_visual_line :: "visual_line option \<Rightarrow> visual_line \<Rightarrow> editor \<Rightarrow> editor" where
  "move_to_visual_line currentVL targetVL s =
     (let visualCol = (case currentVL of Some vl \<Rightarrow> cursorCol s - int (startCol vl) | None \<Rightarrow> 0);
          targetCol = int (startCol targetVL) + min visualCol (int (vl_length targetVL));
          targetLine = js_line (lines s) (int (logicalLine targetVL))
      in s\<lparr>cursorLine := int (logicalLine targetVL),
            cursorCol := min targetCol (int (length targetLine))\<rparr>)"

definition moveCursor :: "env \<Rightarrow> int \<Rightarrow> int \<Rightarrow> editor \<Rightarrow> editor" where
  "moveCursor E deltaLine deltaCol s0 =
     (let width = lastWidth s0;
          s1 = (if deltaLine \<noteq> 0 then
                  (let visualLines = buildVisualLineMap E width s0;
                       currentVisualLine = findCurrentVisualLine s0 visualLines;
                       currentVL = vl_at visualLines currentVisualLine;
                       targetVisualLine = currentVisualLine + deltaLine
                   in if targetVisualLine \<ge> 0 \<and> targetVisualLine < int (length visualLines)
                      then (case vl_at visualLines targetVisualLine of
                              Some targetVL \<Rightarrow> move_to_visual_line currentVL targetVL s0
                            | None \<Rightarrow> s0)
                      else s0)
                else s0)
      in if deltaCol \<noteq> 0 then
           (let currentLine = js_line (lines s1) (cursorLine s1) in
            if deltaCol > 0 then
              (if cursorCol s1 < int (length currentLine) then
                 (let afterCursor = js_slice_from currentLine (cursorCol s1);
                      graphemes = segment E afterCursor
                  in s1\<lparr>cursorCol := cursorCol s1 +
                          (if graphemes = [] then 1 else int (length (hd graphemes)))\<rparr>)
               else if cursorLine s1 < int (length (lines s1)) - 1
               then s1\<lparr>cursorLine := cursorLine s1 + 1, cursorCol := 0\<rparr>
               else s1)
            else
              (if cursorCol s1 > 0 then
                 (let beforeCursor = js_slice currentLine 0 (cursorCol s1);
                      graphemes = segment E beforeCursor
                  in s1\<lparr>cursorCol := cursorCol s1 -
                          (if graphemes = [] then 1 else int (length (last graphemes)))\<rparr>)
               else if cursorLine s1 > 0
               then s1\<lparr>cursorLine := cursorLine s1 - 1,
                       cursorCol := int (length (js_line (lines s1) (cursorLine s1 - 1)))\<rparr>
               else s1))
         else s1)"

text \<open>\<open>Math.max(5, Math.floor(terminalRows * 0.3))\<close>. The product is a floating-point one;
  for a row count a terminal can have, its floor is that of \<open>3 * rows / 10\<close>.\<close>

definition page_size :: "env \<Rightarrow> int" where
  "page_size E = max 5 (int ((3 * terminal_rows E) div 10))"

definition pageScroll :: "env \<Rightarrow> int \<Rightarrow> editor \<Rightarrow> editor" where
  "pageScroll E direction s =
     (let width = lastWidth s;
          pageSize = page_size E;
          visualLines = buildVisualLineMap E width s;
          currentVisualLine = findCurrentVisualLine s visualLines;
          targetVisualLine =
            max 0 (min (int (length visualLines) - 1) (currentVisualLine + direction * pageSize))
      in case vl_at visualLines targetVisualLine of
           Some targetVL \<Rightarrow> move_to_visual_line (vl_at visualLines currentVisualLine) targetVL s
         | None \<Rightarrow> s)"

subsection \<open>History browsing\<close>

definition isEditorEmpty :: "editor \<Rightarrow> bool" where
  "isEditorEmpty s = (length (lines s) = 1 \<and> hd (lines s) = [])"

definition isOnFirstVisualLine :: "env \<Rightarrow> editor \<Rightarrow> bool" where
  "isOnFirstVisualLine E s =
     (findCurrentVisualLine s (buildVisualLineMap E (lastWidth s) s) = 0)"

definition isOnLastVisualLine :: "env \<Rightarrow> editor \<Rightarrow> bool" where
  "isOnLastVisualLine E s =
     (let visualLines = buildVisualLineMap E (lastWidth s) s
      in findCurrentVisualLine s visualLines = int (length visualLines) - 1)"

definition navigateHistory :: "int \<Rightarrow> editor \<Rightarrow> editor" where
  "navigateHistory direction s =
     (if length (history s) = 0 then s
      else
        (let newIndex = historyIndex s - direction in
         if newIndex < -1 \<or> newIndex \<ge> int (length (history s)) then s
         else
           (let s1 = s\<lparr>historyIndex := newIndex\<rparr> in
            if newIndex = -1 then setTextInternal [] s1
            else setTextInternal (history s1 ! nat newIndex) s1)))"

section \<open>Submitting\<close>

text \<open>
  The marker pattern \<open>\[paste #<id>( (\+\d+ lines|\d+ chars))?\]\<close> that submit and
  \<open>getExpandedText\<close> build for each entry of the paste table. \<open>marker_group\<close> matches the
  optional group at the start of a text and returns capture 2; \<open>match_marker\<close> matches the
  whole pattern at the start of a text and returns the length of the match and the captures
  1 and 2. A group that matches but is not followed by \<open>]\<close> leaves the matcher nothing else
  to try: the text then starts with a space, not with \<open>]\<close>.
\<close>

definition marker_group :: "jsstring \<Rightarrow> jsstring option" where
  "marker_group r =
     (case r of
        c # d # r2 \<Rightarrow>
          if c \<noteq> 32 then None
          else if d = 43 then
            (if takeWhile isDigit r2 \<noteq> [] \<and> prefix (str '' lines'') (dropWhile isDigit r2)
             then Some (43 # takeWhile isDigit r2 @ str '' lines'') else None)
          else
            (if takeWhile isDigit (d # r2) \<noteq> []
                \<and> prefix (str '' chars'') (dropWhile isDigit (d # r2))
             then Some (takeWhile isDigit (d # r2) @ str '' chars'') else None)
      | _ \<Rightarrow> None)"

definition match_marker ::
  "nat \<Rightarrow> jsstring \<Rightarrow> (nat \<times> jsstring option \<times> jsstring option) option" where
  "match_marker pasteId s =
     (let pre = str ''[paste #'' @ digits_of pasteId in
      if prefix pre s then
        (let r = drop (length pre) s in
         case marker_group r of
           Some g2 \<Rightarrow>
             if prefix [93] (drop (Suc (length g2)) r)
             then Some (length pre + Suc (length g2) + 1, Some (32 # g2), Some g2)
             else None
         | None \<Rightarrow> if prefix [93] r then Some (length pre + 1, None, None) else None)
      else None)"

text \<open>
  The replacement text of \<open>String.prototype.replace\<close> is a template: \<open>$$\<close> stands for a
  dollar sign, \<open>$&\<close> for the match, \<open>$`\<close> and \<open>$'\<close> for the text before and after it,
  \<open>$n\<close> and \<open>$nn\<close> for a capture (two digits first, one digit if that is no capture of the
  pattern; an unset capture gives the empty string); any other \<open>$\<close> stands for itself.
\<close>

definition capture :: "jsstring option list \<Rightarrow> nat \<Rightarrow> jsstring option" where
  "capture caps n = (if 1 \<le> n \<and> n \<le> length caps
                     then Some (case caps ! (n - 1) of None \<Rightarrow> [] | Some c \<Rightarrow> c) else None)"

fun getSubstitution ::
  "jsstring \<Rightarrow> jsstring \<Rightarrow> jsstring \<Rightarrow> jsstring option list \<Rightarrow> jsstring \<Rightarrow> jsstring" where
  "getSubstitution matched preceding following caps (c # d # t) =
     (if c \<noteq> 36 then c # getSubstitution matched preceding following caps (d # t)
      else if d = 36 then 36 # getSubstitution matched preceding following caps t
      else if d = 38 then matched @ getSubstitution matched preceding following caps t
      else if d = 96 then preceding @ getSubstitution matched preceding following caps t
      else if d = 39 then following @ getSubstitution matched preceding following caps t
      else if isDigit d then
        (case (case t of
                 e # _ \<Rightarrow> if isDigit e then capture caps (10 * (d - 48) + (e - 48)) else None
               | [] \<Rightarrow> None) of
           Some cap \<Rightarrow> cap @ getSubstitution matched preceding following caps (tl t)
         | None \<Rightarrow>
             (case capture caps (d - 48) of
                Some cap \<Rightarrow> cap @ getSubstitution matched preceding following caps t
              | None \<Rightarrow> 36 # d # getSubstitution matched preceding following caps t))
      else 36 # getSubstitution matched preceding following caps (d # t))"
| "getSubstitution matched preceding following caps t = t"

text \<open>\<open>result.replace(markerRegex, pasteContent)\<close> with the flag \<open>g\<close>: every match from left
  to right, the search going on after each match. \<open>whole\<close> is the text searched, \<open>pos\<close> the
  position the rest \<open>s\<close> starts at.\<close>

fun replace_from :: "nat \<Rightarrow> jsstring \<Rightarrow> jsstring \<Rightarrow> nat \<Rightarrow> jsstring \<Rightarrow> jsstring" where
  "replace_from pasteId pasteContent whole pos [] = []"
| "replace_from pasteId pasteContent whole pos (c # cs) =
     (case match_marker pasteId (c # cs) of
        Some (n, g1, g2) \<Rightarrow>
          getSubstitution (take n (c # cs)) (take pos whole) (drop (pos + n) whole) [g1, g2]
            pasteContent
          @ replace_from pasteId pasteContent whole (pos + n) (drop (n - 1) cs)
      | None \<Rightarrow> c # replace_from pasteId pasteContent whole (Suc pos) cs)"

definition replace_markers :: "nat \<Rightarrow> jsstring \<Rightarrow> jsstring \<Rightarrow> jsstring" where
  "replace_markers pasteId pasteContent result = replace_from pasteId pasteContent result 0 result"

text \<open>\<open>for (const [pasteId, pasteContent] of this.pastes) result = result.replace(...)\<close>.\<close>

definition expand_pastes :: "(nat \<times> jsstring) list \<Rightarrow> jsstring \<Rightarrow> jsstring" where
  "expand_pastes ps result = fold (\<lambda>(pasteId, pasteContent). replace_markers pasteId pasteContent) ps result"

definition getExpandedText :: "editor \<Rightarrow> jsstring" where
  "getExpandedText s = expand_pastes (pastes s) (join [NL] (lines s))"

text \<open>The submit branch of \<open>handleInput\<close>.\<close>

definition handleSubmit :: "editor \<Rightarrow> editor" where
  "handleSubmit s =
     (if disableSubmit s then s
      else
        (let result = expand_pastes (pastes s) (trim (join [NL] (lines s)));
             s1 = s\<lparr>lines := [[]], cursorLine := 0, cursorCol := 0, pastes := [],
                    pasteCounter := 0, historyIndex := -1, scrollOffset := 0\<rparr>
         in onSubmit result (onChange [] s1)))"

section \<open>Input\<close>

text \<open>The keys the autocomplete overlay takes while it is shown. \<open>Inl\<close>: the event is
  handled, \<open>handleInput\<close> returns; \<open>Inr\<close>: \<open>handleInput\<close> goes on with the state.\<close>

definition autocomplete_keys :: "env \<Rightarrow> jsstring \<Rightarrow> editor \<Rightarrow> editor + editor" where
  "autocomplete_keys E data s =
     (case autocompleteList s of
        None \<Rightarrow> Inr s
      | Some list \<Rightarrow>
          if \<not> isAutocompleting s then Inr s
          else if kb_matches E data Action_selectCancel then Inl (cancelAutocomplete s)
          else if kb_matches E data Action_selectUp \<or> kb_matches E data Action_selectDown
          then Inl (s\<lparr>autocompleteList := Some (sl_handleInput E data list)\<rparr>)
          else if kb_matches E data Action_tab then
            (case (sl_getSelectedItem E list, autocompleteProvider s) of
               (Some selected, Some p) \<Rightarrow>
                 (let result = applyCompletion p (lines s) (cursorLine s) (cursorCol s) selected
                                 (autocompletePrefix s);
                      s1 = cancelAutocomplete
                             (s\<lparr>lines := fst result, cursorLine := fst (snd result),
                                cursorCol := snd (snd result)\<rparr>)
                  in Inl (onChange (getText s1) s1))
             | _ \<Rightarrow> Inl s)
          else if kb_matches E data Action_selectConfirm then
            (case (sl_getSelectedItem E list, autocompleteProvider s) of
               (Some selected, Some p) \<Rightarrow>
                 (let result = applyCompletion p (lines s) (cursorLine s) (cursorCol s) selected
                                 (autocompletePrefix s);
                      s1 = s\<lparr>lines := fst result, cursorLine := fst (snd result),
                             cursorCol := snd (snd result)\<rparr>
                  in if prefix [47] (autocompletePrefix s1) then Inr (cancelAutocomplete s1)
                     else (let s2 = cancelAutocomplete s1 in Inl (onChange (getText s2) s2)))
             | _ \<Rightarrow> Inr s)
          else Inr s)"

text \<open>\<open>handleInput\<close> from "Tab - trigger completion" to its end.\<close>

definition is_newline_input :: "env \<Rightarrow> jsstring \<Rightarrow> bool" where
  "is_newline_input E data =
     (kb_matches E data Action_newLine
      \<or> ((case data of [] \<Rightarrow> False | c # _ \<Rightarrow> c = 10) \<and> length data > 1)
      \<or> data = [27, 13]
      \<or> data = str (CHR 0x1B # ''[13;2~'')
      \<or> (length data > 1 \<and> js_includes data [27] \<and> js_includes data [13])
      \<or> (data = [10] \<and> length data = 1)
      \<or> data = [92, 13])"

definition handle_action :: "env \<Rightarrow> jsstring \<Rightarrow> editor \<Rightarrow> editor" where
  "handle_action E data s =
     (if kb_matches E data Action_tab \<and> \<not> isAutocompleting s then handleTabCompletion s
      else if kb_matches E data Action_deleteToLineEnd then deleteToEndOfLine s
      else if kb_matches E data Action_deleteToLineStart then deleteToStartOfLine s
      else if kb_matches E data Action_deleteWordBackward then deleteWordBackwards E s
      else if kb_matches E data Action_deleteCharBackward \<or> matchesKey E data Key_shift_backspace
      then handleBackspace E s
      else if kb_matches E data Action_deleteCharForward \<or> matchesKey E data Key_shift_delete
      then handleForwardDelete E s
      else if kb_matches E data Action_cursorLineStart then moveToLineStart s
      else if kb_matches E data Action_cursorLineEnd then moveToLineEnd s
      else if kb_matches E data Action_cursorWordLeft then moveWordBackwards E s
      else if kb_matches E data Action_cursorWordRight then moveWordForwards E s
      else if is_newline_input E data then addNewLine s
      else if kb_matches E data Action_submit then handleSubmit s
      else if kb_matches E data Action_cursorUp then
        (if isEditorEmpty s then navigateHistory (-1) s
         else if historyIndex s > -1 \<and> isOnFirstVisualLine E s then navigateHistory (-1) s
         else moveCursor E (-1) 0 s)
      else if kb_matches E data Action_cursorDown then
        (if historyIndex s > -1 \<and> isOnLastVisualLine E s then navigateHistory 1 s
         else moveCursor E 1 0 s)
      else if kb_matches E data Action_cursorRight then moveCursor E 0 1 s
      else if kb_matches E data Action_cursorLeft then moveCursor E 0 (-1) s
      else if kb_matches E data Action_pageUp then pageScroll E (-1) s
      else if kb_matches E data Action_pageDown then pageScroll E 1 s
      else if matchesKey E data Key_shift_space then insertCharacter [32] s
      else (case decodeKittyPrintable data of
              Some kittyPrintable \<Rightarrow> insertCharacter kittyPrintable s
            | None \<Rightarrow>
                if (case data of [] \<Rightarrow> False | c # _ \<Rightarrow> c \<ge> 32) then insertCharacter data s
                else s))"

text \<open>\<open>handleInput\<close> after the bracketed-paste part: the pending backslash, the copy
  passthrough, the overlay's keys, then the rest.\<close>

definition handleKey :: "env \<Rightarrow> jsstring \<Rightarrow> editor \<Rightarrow> editor" where
  "handleKey E data s0 =
     (case (if pendingShiftEnter s0
            then (if data = [13] then Inl (addNewLine (s0\<lparr>pendingShiftEnter := False\<rparr>))
                  else Inr (insertCharacter [92] (s0\<lparr>pendingShiftEnter := False\<rparr>)))
            else Inr s0) of
        Inl s \<Rightarrow> s
      | Inr s \<Rightarrow>
          if data = [92] then s\<lparr>pendingShiftEnter := True\<rparr>
          else if kb_matches E data Action_copy then s
          else (case autocomplete_keys E data s of
                  Inl s' \<Rightarrow> s'
                | Inr s' \<Rightarrow> handle_action E data s'))"

definition PASTE_START :: jsstring where
  "PASTE_START = [27, 91, 50, 48, 48, 126]"

definition PASTE_END :: jsstring where
  "PASTE_END = [27, 91, 50, 48, 49, 126]"

function handleInput :: "env \<Rightarrow> jsstring \<Rightarrow> editor \<Rightarrow> editor" where
  "handleInput E data0 s0 =
     (let hasStart = js_includes data0 PASTE_START;
          s1 = (if hasStart then s0\<lparr>isInPaste := True, pasteBuffer := []\<rparr> else s0);
          data = (if hasStart then remove_first PASTE_START data0 else data0)
      in if isInPaste s1 then
           (let buf = pasteBuffer s1 @ data in
            case indexOf PASTE_END buf of
              Some endIdx \<Rightarrow>
                (let pasteContent = take endIdx buf;
                     s2 = s1\<lparr>pasteBuffer := buf\<rparr>;
                     s3 = (if length pasteContent > 0 then handlePaste pasteContent s2 else s2);
                     remaining = drop (endIdx + 6) buf;
                     s4 = s3\<lparr>isInPaste := False, pasteBuffer := []\<rparr>
                 in if length remaining > 0 then handleInput E remaining s4 else s4)
            | None \<Rightarrow> s1\<lparr>pasteBuffer := buf\<rparr>)
         else handleKey E data s1)"
  by pat_completeness auto
termination
proof (relation "measure (\<lambda>(E, data, s). length data + (if isInPaste s then length (pasteBuffer s) else 0))",
       goal_cases)
  case 1
  show ?case by simp
next
  case (2 E data0 s0 hasStart s1 data buf endIdx pasteContent s2 s3 remaining s4)
  have len_remove: "length (remove_first PASTE_START data0) \<le> length data0"
    by (auto simp add: remove_first_def min_def split: option.split)
  have s1: "s1 = (if hasStart then s0\<lparr>isInPaste := True, pasteBuffer := []\<rparr> else s0)"
    and data: "data = (if hasStart then remove_first PASTE_START data0 else data0)"
    and inp: "isInPaste s1" and buf: "buf = pasteBuffer s1 @ data"
    and remaining: "remaining = drop (endIdx + 6) buf"
    and s4: "s4 = s3\<lparr>isInPaste := False, pasteBuffer := []\<rparr>"
    and pos: "0 < length remaining"
    using 2 by blast+
  have "length buf \<le> length data0 + (if isInPaste s0 then length (pasteBuffer s0) else 0)"
    using s1 data inp buf len_remove by (cases hasStart) auto
  moreover have "length remaining < length buf"
    using remaining pos by simp
  moreover have "\<not> isInPaste s4"
    using s4 by simp
  ultimately show ?case by simp
qed

declare handleInput.simps [simp del]

section \<open>Rendering\<close>

record LayoutLine =
  ll_text :: jsstring
  hasCursor :: bool
  cursorPos :: "int option"

text \<open>The body of the loop over the chunks of a wrapped line in \<open>layoutText\<close>.\<close>

definition layout_chunk :: "editor \<Rightarrow> bool \<Rightarrow> bool \<Rightarrow> TextChunk \<Rightarrow> LayoutLine" where
  "layout_chunk s isCurrentLine isLastChunk chunk =
     (let cursorPos = cursorCol s;
          hasCursorInChunk =
            (isCurrentLine \<and>
             (if isLastChunk then cursorPos \<ge> int (startIndex chunk)
              else cursorPos \<ge> int (startIndex chunk) \<and> cursorPos < int (endIndex chunk)));
          adjustedCursorPos =
            (if isLastChunk then cursorPos - int (startIndex chunk)
             else min (cursorPos - int (startIndex chunk)) (int (length (chunk_text chunk))))
      in if hasCursorInChunk
         then \<lparr>ll_text = chunk_text chunk, hasCursor = True, cursorPos = Some adjustedCursorPos\<rparr>
         else \<lparr>ll_text = chunk_text chunk, hasCursor = False, cursorPos = None\<rparr>)"

fun layout_chunks :: "editor \<Rightarrow> bool \<Rightarrow> TextChunk list \<Rightarrow> LayoutLine list" where
  "layout_chunks s isCurrentLine [] = []"
| "layout_chunks s isCurrentLine (chunk # rest) =
     layout_chunk s isCurrentLine (rest = []) chunk # layout_chunks s isCurrentLine rest"

definition layoutText :: "env \<Rightarrow> int \<Rightarrow> editor \<Rightarrow> LayoutLine list" where
  "layoutText E contentWidth s =
     (if length (lines s) = 0 \<or> (length (lines s) = 1 \<and> hd (lines s) = [])
      then [\<lparr>ll_text = [], hasCursor = True, cursorPos = Some 0\<rparr>]
      else concat (map (\<lambda>i.
             (let line = lines s ! i;
                  isCurrentLine = (int i = cursorLine s)
              in if int (visibleWidth E line) \<le> contentWidth
                 then (if isCurrentLine
                       then [\<lparr>ll_text = line, hasCursor = True, cursorPos = Some (cursorCol s)\<rparr>]
                       else [\<lparr>ll_text = line, hasCursor = False, cursorPos = None\<rparr>])
                 else layout_chunks s isCurrentLine (wordWrapLine E line contentWidth)))
             [0 ..< length (lines s)]))"

datatype border_position = Position_top | Position_bottom

definition formatBorder :: "editor \<Rightarrow> jsstring \<Rightarrow> border_position \<Rightarrow> jsstring" where
  "formatBorder s text position =
     (if length text \<le> 1 then text
      else
        (let leftChar = (case (borderStyle s, position) of
                           (Border_rounded, Position_top) \<Rightarrow> [9581] | (Border_rounded, Position_bottom) \<Rightarrow> [9584]
                         | (Border_sharp, Position_top) \<Rightarrow> [9484] | (Border_sharp, Position_bottom) \<Rightarrow> [9492]
                         | (Border_none, _) \<Rightarrow> []);
             rightChar = (case (borderStyle s, position) of
                            (Border_rounded, Position_top) \<Rightarrow> [9582] | (Border_rounded, Position_bottom) \<Rightarrow> [9583]
                          | (Border_sharp, Position_top) \<Rightarrow> [9488] | (Border_sharp, Position_bottom) \<Rightarrow> [9496]
                          | (Border_none, _) \<Rightarrow> [])
         in if leftChar = [] \<and> rightChar = [] then text
            else leftChar @ js_slice text 1 (-1) @ rightChar))"

text \<open>\<open>`\x1b[7m${g}\x1b[0m`\<close>: reverse video around a grapheme.\<close>

definition reverse_video :: "jsstring \<Rightarrow> jsstring" where
  "reverse_video g = [27, 91, 55, 109] @ g @ [27, 91, 48, 109]"

text \<open>The body of the loop over the visible layout lines in \<open>render\<close>.\<close>

definition render_line :: "env \<Rightarrow> int \<Rightarrow> nat \<Rightarrow> bool \<Rightarrow> LayoutLine \<Rightarrow> jsstring" where
  "render_line E contentWidth padX emitCursorMarker layoutLine =
     (let lineVisibleWidth0 = int (visibleWidth E (ll_text layoutLine));
          r = (case (if hasCursor layoutLine then cursorPos layoutLine else None) of
                 None \<Rightarrow> (ll_text layoutLine, lineVisibleWidth0)
               | Some pos \<Rightarrow>
                   (let before_text = js_slice (ll_text layoutLine) 0 pos;
                        after = js_slice_from (ll_text layoutLine) pos;
                        marker = (if emitCursorMarker then CURSOR_MARKER E else [])
                    in if length after > 0 then
                         (let afterGraphemes = segment E after;
                              firstGrapheme = (case afterGraphemes of [] \<Rightarrow> [] | g # _ \<Rightarrow> g);
                              restAfter = drop (length firstGrapheme) after
                          in (before_text @ marker @ reverse_video firstGrapheme @ restAfter,
                              lineVisibleWidth0))
                       else if lineVisibleWidth0 < contentWidth then
                         (before_text @ marker @ reverse_video [32], lineVisibleWidth0 + 1)
                       else
                         (let beforeGraphemes = segment E before_text in
                          if length beforeGraphemes > 0
                          then (concat (butlast beforeGraphemes) @ marker
                                  @ reverse_video (last beforeGraphemes), lineVisibleWidth0)
                          else (ll_text layoutLine, lineVisibleWidth0))));
          padding = replicate (nat (max 0 (contentWidth - snd r))) 32
      in replicate padX 32 @ fst r @ padding @ replicate padX 32)"

fun findIndex :: "('a \<Rightarrow> bool) \<Rightarrow> 'a list \<Rightarrow> nat \<Rightarrow> nat option" where
  "findIndex P [] i = None"
| "findIndex P (x # xs) i = (if P x then Some i else findIndex P xs (Suc i))"

text \<open>The ruled border with its scroll indicator, \<open>`\<emdash>\<emdash>\<emdash> \<up> ${n} more `\<close> followed
  by the rule; \<open>arrow\<close> is the code unit of the arrow.\<close>

definition scroll_border :: "env \<Rightarrow> nat \<Rightarrow> nat \<Rightarrow> int \<Rightarrow> jsstring" where
  "scroll_border E width arrow n =
     (let indicator = [9472, 9472, 9472, 32, arrow, 32] @ digits_of (nat n) @ str '' more '';
          remaining = int width - int (visibleWidth E indicator)
      in indicator @ replicate (nat (max 0 remaining)) 9472)"

text \<open>\<open>render(width)\<close> returns the lines and stores \<open>lastWidth\<close> and \<open>scrollOffset\<close>. The
  width is a natural number: \<open>"\<emdash>".repeat(width)\<close> throws on a negative one.\<close>

definition render :: "env \<Rightarrow> nat \<Rightarrow> editor \<Rightarrow> jsstring list \<times> editor" where
  "render E width s0 =
     (let maxPadding = max 0 ((int width - 1) div 2);
          padX = min (paddingX s0) maxPadding;
          contentWidth = max 1 (int width - padX * 2);
          s1 = s0\<lparr>lastWidth := contentWidth\<rparr>;
          layoutLines = layoutText E contentWidth s1;
          maxVisibleLines = page_size E;
          cursorLineIndex = (case findIndex hasCursor layoutLines 0 of
                               None \<Rightarrow> 0 | Some i \<Rightarrow> int i);
          offset1 = (if cursorLineIndex < scrollOffset s1 then cursorLineIndex
                     else if cursorLineIndex \<ge> scrollOffset s1 + maxVisibleLines
                     then cursorLineIndex - maxVisibleLines + 1
                     else scrollOffset s1);
          maxScrollOffset = max 0 (int (length layoutLines) - maxVisibleLines);
          offset2 = max 0 (min offset1 maxScrollOffset);
          s2 = s1\<lparr>scrollOffset := offset2\<rparr>;
          visibleLines = take (nat maxVisibleLines) (drop (nat offset2) layoutLines);
          topBorder0 = (if offset2 > 0 then scroll_border E width 8593 offset2
                        else replicate width 9472);
          topBorder = (if width > 1 then formatBorder s2 topBorder0 Position_top else topBorder0);
          emitCursorMarker = (focused s2 \<and> \<not> isAutocompleting s2);
          body = map (render_line E contentWidth (nat padX) emitCursorMarker) visibleLines;
          linesBelow = int (length layoutLines) - (offset2 + int (length visibleLines));
          bottomBorder0 = (if linesBelow > 0 then scroll_border E width 8595 linesBelow
                           else replicate width 9472);
          bottomBorder = (if width > 1 then formatBorder s2 bottomBorder0 Position_bottom
                          else bottomBorder0);
          overlay = (case (if isAutocompleting s2 then autocompleteList s2 else None) of
                       None \<Rightarrow> []
                     | Some list \<Rightarrow>
                         map (\<lambda>line. replicate (nat padX) 32 @ line
                                @ replicate (nat (max 0 (contentWidth - int (visibleWidth E line)))) 32
                                @ replicate (nat padX) 32)
                           (sl_render E list contentWidth))
      in ([borderColor E topBorder] @ body @ [borderColor E bottomBorder] @ overlay, s2))"

section \<open>A sample environment\<close>

text \<open>
  Modelled from the spec: keybindings.js, keys.js, utils.js, tui.js and select-list.js are
  not among the sources, so concrete runs of the model use the environment below. It is
  meant for text made of printable ASCII and the box-drawing and arrow characters of the
  borders only, where every code unit is a grapheme of its own and one cell wide, white space
  is the space and the tab, and punctuation is the ASCII punctuation. \<open>visibleWidth\<close> skips
  the escape sequences the editor emits (\<open>ESC [ ... m\<close>). The key table is that of a
  terminal in legacy mode: Enter submits, the arrow keys are \<open>ESC [ A\<close> to \<open>ESC [ D\<close>,
  backspace is DEL, and so on; no input is one of the Kitty-only keys \<open>matchesKey\<close> is asked
  about, and the cursor marker is left empty.
\<close>

fun strip_sgr :: "bool \<Rightarrow> jsstring \<Rightarrow> jsstring" where
  "strip_sgr inside [] = []"
| "strip_sgr inside (c # cs) =
     (if inside then (if c = 109 then strip_sgr False cs else strip_sgr True cs)
      else if c = 27 then strip_sgr True cs
      else c # strip_sgr False cs)"

definition sample_matches :: "jsstring \<Rightarrow> action \<Rightarrow> bool" where
  "sample_matches data a =
     (case a of
        Action_copy \<Rightarrow> data = [3]
      | Action_selectCancel \<Rightarrow> data = [27]
      | Action_selectUp \<Rightarrow> data = [27, 91, 65]
      | Action_selectDown \<Rightarrow> data = [27, 91, 66]
      | Action_tab \<Rightarrow> data = [9]
      | Action_selectConfirm \<Rightarrow> data = [13]
      | Action_deleteToLineEnd \<Rightarrow> data = [11]
      | Action_deleteToLineStart \<Rightarrow> data = [21]
      | Action_deleteWordBackward \<Rightarrow> data = [23]
      | Action_deleteCharBackward \<Rightarrow> data = [127]
      | Action_deleteCharForward \<Rightarrow> data = [27, 91, 51, 126]
      | Action_cursorLineStart \<Rightarrow> data = [1]
      | Action_cursorLineEnd \<Rightarrow> data = [5]
      | Action_cursorWordLeft \<Rightarrow> data = [27, 98]
      | Action_cursorWordRight \<Rightarrow> data = [27, 102]
      | Action_newLine \<Rightarrow> data = [27, 91, 49, 51, 59, 50, 117]
      | Action_submit \<Rightarrow> data = [13]
      | Action_cursorUp \<Rightarrow> data = [27, 91, 65]
      | Action_cursorDown \<Rightarrow> data = [27, 91, 66]
      | Action_cursorRight \<Rightarrow> data = [27, 91, 67]
      | Action_cursorLeft \<Rightarrow> data = [27, 91, 68]
      | Action_pageUp \<Rightarrow> data = [27, 91, 53, 126]
      | Action_pageDown \<Rightarrow> data = [27, 91, 54, 126])"

definition sample_env :: env where
  "sample_env = \<lparr>
     kb_matches = sample_matches,
     matchesKey = (\<lambda>data k. False),
     segment = map (\<lambda>c. [c]),
     visibleWidth = (\<lambda>s. length (strip_sgr False s)),
     isWhitespaceChar = (\<lambda>g. g = [32] \<or> g = [9]),
     isPunctuationChar = (\<lambda>g. case g of [c] \<Rightarrow> (33 \<le> c \<and> c \<le> 47) \<or> (58 \<le> c \<and> c \<le> 64)
                                     \<or> (91 \<le> c \<and> c \<le> 96) \<or> (123 \<le> c \<and> c \<le> 126)
                                | _ \<Rightarrow> False),
     CURSOR_MARKER = [],
     terminal_rows = 10,
     borderColor = (\<lambda>s. s),
     sl_handleInput = (\<lambda>data l. l),
     sl_getSelectedItem = (\<lambda>l. if sl_selectedIndex l < length (sl_items l)
                                then Some (sl_items l ! sl_selectedIndex l) else None),
     sl_render = (\<lambda>l w. []) \<rparr>"

section \<open>Notions the properties are stated with\<close>

text \<open>What a pure cursor motion must leave alone: the buffer lines, the paste table, the
  history, and the values passed to the change sink so far.\<close>

definition frame :: "editor \<Rightarrow> editor \<Rightarrow> bool" where
  "frame s s' = (lines s' = lines s \<and> pastes s' = pastes s \<and> history s' = history s
                 \<and> changeLog s' = changeLog s)"

text \<open>An editor state with the three fields of the autocomplete overlay blanked: two states
  with the same image differ in the overlay only.\<close>

definition strip_ac :: "editor \<Rightarrow> editor" where
  "strip_ac s = s\<lparr>autocompleteList := None, isAutocompleting := False, autocompletePrefix := []\<rparr>"

text \<open>The history of an editor after the calls \<open>addToHistory(t)\<close> for \<open>t\<close> in \<open>ts\<close>, in
  that order, and what the data model asks of a history.\<close>

definition history_of :: "jsstring list \<Rightarrow> jsstring list" where
  "history_of ts = history (fold addToHistory ts Editor_init)"

definition history_inv :: "jsstring list \<Rightarrow> bool" where
  "history_inv h =
     ([] \<notin> set h \<and> distinct_adj h \<and> (\<forall>x \<in> set h. trim x = x) \<and> length h \<le> 100)"

text \<open>The history in the data model's words: the texts of the calls, trimmed, without the
  empty ones, a run of equal neighbours counted once, the most recent first, and of these
  the first 100.\<close>

definition recent_first :: "jsstring list \<Rightarrow> jsstring list" where
  "recent_first ts = take 100 (rev (remdups_adj (filter (\<lambda>x. x \<noteq> []) (map trim ts))))"

text \<open>A state outside a bracketed paste, with no backslash pending and no autocomplete
  provider: the state of an editor whose host has not installed a provider.\<close>

definition plain :: "editor \<Rightarrow> bool" where
  "plain s = (\<not> isInPaste s \<and> \<not> pendingShiftEnter s \<and> autocompleteProvider s = None
              \<and> autocompleteList s = None)"


text \<open>The cursor invariant of the data model: the buffer is not empty, the cursor is on a
  line of the buffer, its column is within the line and on a grapheme boundary, that is,
  the length of some number of leading graphemes.\<close>

definition boundaries :: "env \<Rightarrow> jsstring \<Rightarrow> int list" where
  "boundaries E line =
     map (\<lambda>k. int (length (concat (take k (segment E line))))) [0 ..< Suc (length (segment E line))]"

definition cursor_inv :: "env \<Rightarrow> editor \<Rightarrow> bool" where
  "cursor_inv E s =
     (lines s \<noteq> [] \<and> 0 \<le> cursorLine s \<and> cursorLine s < int (length (lines s))
      \<and> 0 \<le> cursorCol s \<and> cursorCol s \<le> int (length (js_line (lines s) (cursorLine s)))
      \<and> cursorCol s \<in> set (boundaries E (js_line (lines s) (cursorLine s))))"


text \<open>A line of 78 letters, three spaces and a letter, wider than the 80 columns an editor
  assumes before it has been rendered; and the state after typing it and moving the cursor
  to column \<open>k\<close>.\<close>

definition gap_line :: jsstring where
  "gap_line = replicate 78 97 @ [32, 32, 32, 98]"

definition gap_state :: "int \<Rightarrow> editor" where
  "gap_state k = Editor_init\<lparr>lines := [gap_line], cursorCol := k, historyIndex := -1,
                             changeLog := [gap_line]\<rparr>"


text \<open>Six empty lines with the cursor on the last, in an editor with default options.\<close>

definition six_lines :: "editor \<Rightarrow> bool" where
  "six_lines s = (lines s = [[], [], [], [], [], []] \<and> cursorLine s = 5 \<and> cursorCol s = 0
     \<and> scrollOffset s = 0 \<and> paddingX s = 0 \<and> borderStyle s = Border_rounded
     \<and> \<not> isAutocompleting s)"

text \<open>
  A CSI-u sequence built from its fields, \<open>ESC [ cp (: shifted)? (: base)? (; mod)? (: sub)? u\<close>,
  each field a string of decimal digits (the shifted field may be empty). The pattern reads a
  sequence from left to right, so the fields are those it finds when a base field comes
  with a shifted field, and a sub field with a modifier field or with both the shifted and
  the base field. \<open>exact\<close>: the number of a field is below \<open>2^53\<close>, so that it is a
  JavaScript number as it stands.
\<close>

definition opt_field :: "nat \<Rightarrow> jsstring option \<Rightarrow> jsstring" where
  "opt_field sep f = (case f of None \<Rightarrow> [] | Some d \<Rightarrow> sep # d)"

definition csi_u ::
  "jsstring \<Rightarrow> jsstring option \<Rightarrow> jsstring option \<Rightarrow> jsstring option \<Rightarrow> jsstring option \<Rightarrow> jsstring"
  where
  "csi_u cp shifted base md sub =
     [27, 91] @ cp @ opt_field 58 shifted @ opt_field 58 base @ opt_field 59 md
       @ opt_field 58 sub @ [117]"

definition digit_string :: "jsstring \<Rightarrow> bool" where
  "digit_string d = (d \<noteq> [] \<and> list_all isDigit d)"

definition csi_fields ::
  "jsstring \<Rightarrow> jsstring option \<Rightarrow> jsstring option \<Rightarrow> jsstring option \<Rightarrow> jsstring option \<Rightarrow> bool"
  where
  "csi_fields cp shifted base md sub =
     (digit_string cp
      \<and> (case shifted of None \<Rightarrow> True | Some d \<Rightarrow> list_all isDigit d)
      \<and> (case base of None \<Rightarrow> True | Some d \<Rightarrow> digit_string d \<and> shifted \<noteq> None)
      \<and> (case md of None \<Rightarrow> True | Some d \<Rightarrow> digit_string d)
      \<and> (case sub of None \<Rightarrow> True
           | Some d \<Rightarrow> digit_string d \<and> (md \<noteq> None \<or> (shifted \<noteq> None \<and> base \<noteq> None))))"

definition exact :: "jsstring option \<Rightarrow> bool" where
  "exact f = (case f of None \<Rightarrow> True | Some d \<Rightarrow> decimal d < 2 ^ 53)"

text \<open>The modifier bits of a sequence (the field is one more than the bit mask; no field
  means no modifier) and its effective code point: the shifted one when Shift is held and
  a shifted code point is there, the plain one otherwise. Both are the integers the digits
  stand for.\<close>

definition kitty_modifier :: "jsstring option \<Rightarrow> int" where
  "kitty_modifier md = (case md of None \<Rightarrow> 0 | Some d \<Rightarrow> int (decimal d) - 1)"

definition kitty_effective :: "jsstring \<Rightarrow> jsstring option \<Rightarrow> jsstring option \<Rightarrow> nat" where
  "kitty_effective cp shifted md =
     (case shifted of
        None \<Rightarrow> decimal cp
      | Some d \<Rightarrow> if d \<noteq> [] \<and> and (kitty_modifier md) 1 \<noteq> 0 then decimal d
                  else decimal cp)"

text \<open>What a sequence stands for: nothing when the code point field overflows to
  \<open>Infinity\<close>, when Alt or Ctrl is held, or when the effective code point is a control
  character or no code point at all; the effective code point as a string otherwise.\<close>

definition kitty_text :: "jsstring \<Rightarrow> jsstring option \<Rightarrow> jsstring option \<Rightarrow> jsstring option" where
  "kitty_text cp shifted md =
     (if INFINITY_FROM \<le> decimal cp then None
      else if and (kitty_modifier md) 2 \<noteq> 0 \<or> and (kitty_modifier md) 4 \<noteq> 0 then None
      else if kitty_effective cp shifted md < 32 then None
      else fromCodePoint (kitty_effective cp shifted md))"

text \<open>The sequence \<open>ESC [ 97 : 65 ; 2 u\<close>, and a sequence whose modifier field is
  \<open>2^60 + 3\<close>: the modifier \<open>2^60 + 2\<close> has the Alt bit.\<close>

definition shifted_a :: jsstring where
  "shifted_a = [27, 91, 57, 55, 58, 54, 53, 59, 50, 117]"

definition huge_alt :: jsstring where
  "huge_alt = [49, 49, 53, 50, 57, 50, 49, 53, 48, 52, 54, 48, 54, 56, 52, 54, 57, 55, 57]"

text \<open>An input that no key binding of the environment matches.\<close>

definition unbound :: "env \<Rightarrow> jsstring \<Rightarrow> bool" where
  "unbound E data = ((\<forall>a. \<not> kb_matches E data a) \<and> (\<forall>k. \<not> matchesKey E data k))"

text \<open>A cursor that is on a line of the buffer, at a column within the line.\<close>

definition cursor_ok :: "editor \<Rightarrow> bool" where
  "cursor_ok s = (0 \<le> cursorLine s \<and> cursorLine s < int (length (lines s)) \<and> 0 \<le> cursorCol s
     \<and> cursorCol s \<le> int (length (lines s ! nat (cursorLine s))))"

text \<open>The text of the cursor's line before and after the cursor, and the buffer lines with
  a text put in at the cursor.\<close>

definition text_before :: "editor \<Rightarrow> jsstring" where
  "text_before s = take (nat (cursorCol s)) (lines s ! nat (cursorLine s))"

definition text_after :: "editor \<Rightarrow> jsstring" where
  "text_after s = drop (nat (cursorCol s)) (lines s ! nat (cursorLine s))"

definition spliced :: "editor \<Rightarrow> jsstring \<Rightarrow> jsstring list" where
  "spliced s t = (lines s)[nat (cursorLine s) := text_before s @ t @ text_after s]"

text \<open>The lines of a pasted text after the cleaning \<open>handlePaste\<close> does, and the test for a
  large paste in the specification's words: more than 10 lines or more than 1000
  characters (UTF-16 code units, what \<open>length\<close> counts).\<close>

definition paste_lines :: "jsstring \<Rightarrow> editor \<Rightarrow> jsstring list" where
  "paste_lines t s = split_on NL (filtered_paste t s)"

definition large_paste :: "jsstring \<Rightarrow> editor \<Rightarrow> bool" where
  "large_paste t s = (length (paste_lines t s) > 10 \<or> length (filtered_paste t s) > 1000)"

text \<open>Splicing pasted lines into a line, in the specification's sense: the first pasted line
  follows the text before the cursor, the text after the cursor follows the last pasted
  line, the other pasted lines are lines of their own in between.\<close>

definition splice_lines :: "jsstring \<Rightarrow> jsstring list \<Rightarrow> jsstring \<Rightarrow> jsstring list" where
  "splice_lines b pasted a =
     (case pasted of
        [] \<Rightarrow> [b @ a]
      | [l] \<Rightarrow> [b @ l @ a]
      | l # ls \<Rightarrow> (b @ l) # butlast ls @ [last ls @ a])"

text \<open>The change sink has been called in the second state with everything it had been called
  with in the first, in the same order, and then possibly more.\<close>

definition extends_log :: "editor \<Rightarrow> editor \<Rightarrow> bool" where
  "extends_log s s' = prefix (changeLog s) (changeLog s')"



text \<open>The backslash the editor holds back until the next input, which releases it into the
  buffer unless that input is Enter.\<close>

definition pending_text :: "editor \<Rightarrow> jsstring" where
  "pending_text s = (if pendingShiftEnter s then [92] else [])"




section \<open>Properties\<close>

lemma join_split_on: "join [c] (split_on c s) = s"
proof (induction s)
  case Nil
  show ?case by simp
next
  case (Cons x xs)
  show ?case
  proof (cases "split_on c xs")
    case Nil
    with Cons show ?thesis by simp
  next
    case (Cons l ls)
    with Cons.IH show ?thesis by (cases ls) auto
  qed
qed

subsection \<open>Replacing the text\<close>

lemma split_on_nonempty: "split_on c s \<noteq> []"
  by (induction s) (auto split: list.split)

lemma normalize_newlines_code: "replace_cr (replace_crlf t) = normalize_newlines t"
  by (induction t rule: normalize_newlines.induct) (auto simp: replace_cr_def CR_def NL_def)

lemma setTextInternal_lines: "lines (setTextInternal t s) = split_on NL (normalize_newlines t)"
  by (simp add: setTextInternal_def Let_def onChange_def normalize_newlines_code split_on_nonempty)

text \<open>
  Claim C7. For every string \<open>t\<close> and every editor state, after \<open>setText(t)\<close> the buffer is
  \<open>t\<close> with \<open>\r\n\<close> and \<open>\r\<close> turned into \<open>\n\<close>, split at \<open>\n\<close>; \<open>getText()\<close> returns
  the normalised text; the cursor is on the last line, at its end; and history browsing is
  left (\<open>historyIndex = -1\<close>). The normalisation is the one-pass function written from the
  specification's words, which the two \<open>replace\<close> calls of the code compute.
\<close>

theorem setText_roundtrip:
  "lines (setText t s) = split_on NL (normalize_newlines t)
   \<and> getText (setText t s) = normalize_newlines t
   \<and> cursorLine (setText t s) = int (length (lines (setText t s))) - 1
   \<and> cursorCol (setText t s) = int (length (last (lines (setText t s))))
   \<and> historyIndex (setText t s) = -1"
proof -
  let ?ls = "split_on NL (normalize_newlines t)"
  have ne: "?ls \<noteq> []" by (rule split_on_nonempty)
  have l: "lines (setText t s) = ?ls"
    by (simp add: setText_def setTextInternal_lines)
  have g: "getText (setText t s) = normalize_newlines t"
    by (simp add: getText_def l join_split_on[of NL, unfolded NL_def] NL_def)
  have cl: "cursorLine (setText t s) = int (length ?ls) - 1"
    by (simp add: setText_def setTextInternal_def Let_def onChange_def normalize_newlines_code ne)
  have "js_line ?ls (int (length ?ls) - 1) = last ?ls"
    using ne by (simp add: js_line_def last_conv_nth nat_diff_distrib')
  then have cc: "cursorCol (setText t s) = int (length (last ?ls))"
    by (simp add: setText_def setTextInternal_def Let_def onChange_def normalize_newlines_code ne)
  have h: "historyIndex (setText t s) = -1"
    by (simp add: setText_def setTextInternal_def Let_def onChange_def)
  show ?thesis using l g cl cc h by simp
qed

theorem setText_roundtrip_witness:
  "lines (setText [97, 13, 10, 98, 13, 99] Editor_init) = [[97], [98], [99]]
   \<and> getText (setText [97, 13, 10, 98, 13, 99] Editor_init) = [97, 10, 98, 10, 99]"
  using setText_roundtrip [of "[97, 13, 10, 98, 13, 99]" Editor_init]
  by (simp add: NL_def CR_def)

subsection \<open>Cursor motion changes the cursor only\<close>

lemma frame_moveCursor: "frame s (moveCursor E dl dc s)"
  by (simp add: frame_def moveCursor_def move_to_visual_line_def Let_def split: option.split)

lemma frame_pageScroll: "frame s (pageScroll E d s)"
  by (simp add: frame_def pageScroll_def move_to_visual_line_def Let_def split: option.split)

lemma frame_moveWordBackwards: "frame s (moveWordBackwards E s)"
  by (simp add: frame_def moveWordBackwards_def Let_def)

lemma frame_moveWordForwards: "frame s (moveWordForwards E s)"
  by (simp add: frame_def moveWordForwards_def Let_def)

text \<open>
  Claim C10. Each pure cursor motion (\<open>moveCursor\<close> in either direction, \<open>moveToLineStart\<close>,
  \<open>moveToLineEnd\<close>, \<open>moveWordBackwards\<close>, \<open>moveWordForwards\<close>, \<open>pageScroll\<close>) leaves the
  buffer lines, the paste table and the history as they were and passes nothing to the
  change sink, in every state and environment.
\<close>

theorem cursor_motion_frame:
  "frame s (moveCursor E deltaLine deltaCol s) \<and> frame s (moveToLineStart s)
   \<and> frame s (moveToLineEnd s) \<and> frame s (moveWordBackwards E s)
   \<and> frame s (moveWordForwards E s) \<and> frame s (pageScroll E direction s)"
  using frame_moveCursor frame_pageScroll frame_moveWordBackwards frame_moveWordForwards
  by (simp add: frame_def moveToLineStart_def moveToLineEnd_def)

theorem cursor_motion_frame_witness:
  "lines (moveCursor sample_env (-1) 0 (setText [97, 98, 10, 99, 100] Editor_init))
     = [[97, 98], [99, 100]]
   \<and> changeLog (pageScroll sample_env 1 (setText [97, 98, 10, 99, 100] Editor_init))
     = [[97, 98, 10, 99, 100]]"
  using cursor_motion_frame [of "setText [97, 98, 10, 99, 100] Editor_init" sample_env "-1" 0 1]
  by (simp add: frame_def setText_def setTextInternal_def Let_def onChange_def getText_def
      Editor_init_def replace_cr_def NL_def CR_def js_line_def)

subsection \<open>History\<close>

lemma trimStart_trimStart: "trimStart (trimStart s) = trimStart s"
  by (simp add: trimStart_def dropWhile_idem)

lemma trim_idem: "trim (trim s) = trim s"
proof -
  define z where "z = dropWhile isJsSpace s"
  define y where "y = rev (dropWhile isJsSpace (rev z))"
  have y: "trim s = y" by (simp add: trim_def trimStart_def trimEnd_def y_def z_def)
  have "dropWhile isJsSpace y = y"
  proof (cases "y = []")
    case True then show ?thesis by simp
  next
    case False
    have "z = y @ rev (takeWhile isJsSpace (rev z))"
      unfolding y_def by (metis rev_append rev_rev_ident takeWhile_dropWhile_id)
    then have pre: "prefix y z" by (metis prefixI)
    with False have "hd y = hd z" by (metis hd_append2 prefix_def)
    moreover have "z \<noteq> []" using pre False by auto
    then have "\<not> isJsSpace (hd z)" unfolding z_def by (rule hd_dropWhile)
    ultimately have "\<not> isJsSpace (hd y)" by simp
    with False show ?thesis by (cases y) auto
  qed
  then have a: "trimStart y = y" by (simp add: trimStart_def)
  have b: "trimEnd y = y"
    by (simp add: y_def trimEnd_def)
  have "trim y = y" unfolding trim_def a b ..
  then show ?thesis by (simp only: y)
qed

lemma history_addToHistory:
  "history (addToHistory t s) =
     (if trim t = [] \<or> (history s \<noteq> [] \<and> hd (history s) = trim t) then history s
      else if length (history s) \<ge> 100 then trim t # butlast (history s)
      else trim t # history s)"
  by (auto simp: addToHistory_def Let_def)

lemma distinct_adj_butlast: "distinct_adj h \<Longrightarrow> distinct_adj (butlast h)"
  by (metis append_butlast_last_id butlast.simps(1) distinct_adj_appendD1)

lemma history_inv_step:
  assumes "history_inv (history s)" shows "history_inv (history (addToHistory t s))"
proof -
  let ?h = "history s"
  from assms have a: "[] \<notin> set ?h" "distinct_adj ?h" "\<forall>x \<in> set ?h. trim x = x" "length ?h \<le> 100"
    by (auto simp: history_inv_def)
  have bl: "set (butlast ?h) \<subseteq> set ?h" by (auto dest: in_set_butlastD)
  show ?thesis
  proof (cases "trim t = [] \<or> (?h \<noteq> [] \<and> hd ?h = trim t)")
    case True
    then show ?thesis using assms by (simp add: history_addToHistory)
  next
    case False
    then have ne: "trim t \<noteq> []" and hdne: "?h = [] \<or> hd ?h \<noteq> trim t" by auto
    show ?thesis
    proof (cases "length ?h \<ge> 100")
      case True
      then have h: "history (addToHistory t s) = trim t # butlast ?h"
        using ne hdne by (auto simp: history_addToHistory)
      have "distinct_adj (trim t # butlast ?h)"
      proof (cases "butlast ?h")
        case Nil then show ?thesis by simp
      next
        case (Cons y ys)
        then have "hd (butlast ?h) = hd ?h" by (metis append_butlast_last_id butlast.simps(1) hd_append2 list.distinct(1))
        with Cons hdne a(2) show ?thesis
          using distinct_adj_butlast[of ?h] by (auto simp: distinct_adj_Cons)
      qed
      moreover have "length (trim t # butlast ?h) \<le> 100" using a(4) True by simp
      ultimately show ?thesis
        using a bl ne by (auto simp: h history_inv_def trim_idem)
    next
      case False': False
      then have h: "history (addToHistory t s) = trim t # ?h"
        using ne hdne by (auto simp: history_addToHistory)
      have "distinct_adj (trim t # ?h)" using hdne a(2) by (auto simp: distinct_adj_Cons)
      then show ?thesis using a ne False' by (auto simp: h history_inv_def trim_idem)
    qed
  qed
qed

lemma history_inv_fold:
  "history_inv (history s) \<Longrightarrow> history_inv (history (fold addToHistory ts s))"
  by (induction ts arbitrary: s) (auto intro: history_inv_step)

lemma history_recent_first:
  "trim t \<noteq> [] \<Longrightarrow> hd (history (addToHistory t s)) = trim t"
  by (auto simp: history_addToHistory)

lemma remdups_adj_snoc:
  "remdups_adj (xs @ [x]) = (if xs \<noteq> [] \<and> last xs = x then remdups_adj xs else remdups_adj xs @ [x])"
proof (cases xs rule: rev_cases)
  case Nil then show ?thesis by simp
next
  case (snoc ys y)
  then show ?thesis
    by (simp add: remdups_adj_append_two del: remdups_adj.simps)
qed

lemma butlast_take_full: "length h = n \<Longrightarrow> butlast (x # h) = take n (x # h)"
  by (metis butlast_conv_take length_Cons diff_Suc_1)

lemma history_of_snoc:
  "history_of (ts @ [t]) = history (addToHistory t (fold addToHistory ts Editor_init))"
  by (simp add: history_of_def)

lemma history_of_recent_first: "history_of ts = recent_first ts"
proof (induction ts rule: rev_induct)
  case Nil
  show ?case by (simp add: history_of_def recent_first_def Editor_init_def)
next
  case (snoc t ts)
  define F where "F = filter (\<lambda>x. x \<noteq> []) (map trim ts)"
  define R where "R = remdups_adj F"
  define s where "s = fold addToHistory ts Editor_init"
  have H: "history s = take 100 (rev R)"
    using snoc by (simp add: history_of_def recent_first_def s_def R_def F_def)
  have Rne: "R \<noteq> [] \<longleftrightarrow> F \<noteq> []" by (simp add: R_def)
  have hdH: "hd (history s) = last F" if "F \<noteq> []"
    using that Rne by (simp add: H hd_rev R_def last_remdups_adj hd_take)
  have Hne: "history s \<noteq> [] \<longleftrightarrow> F \<noteq> []" using Rne by (simp add: H)
  show ?case
  proof (cases "trim t = []")
    case True
    then show ?thesis
      using snoc by (simp add: history_of_snoc history_addToHistory recent_first_def history_of_def)
  next
    case False
    have F': "filter (\<lambda>x. x \<noteq> []) (map trim (ts @ [t])) = F @ [trim t]"
      using False by (simp add: F_def)
    show ?thesis
    proof (cases "F \<noteq> [] \<and> last F = trim t")
      case True
      then have "history (addToHistory t s) = history s"
        using Hne hdH by (simp add: history_addToHistory)
      moreover have "recent_first (ts @ [t]) = take 100 (rev R)"
        unfolding recent_first_def F' using True by (simp add: remdups_adj_snoc R_def)
      ultimately show ?thesis unfolding history_of_snoc s_def[symmetric] by (simp add: H)
    next
      case False': False
      then have nd: "\<not> (history s \<noteq> [] \<and> hd (history s) = trim t)"
        using Hne hdH by auto
      have r: "recent_first (ts @ [t]) = take 100 (trim t # rev R)"
        unfolding recent_first_def F' using False' by (auto simp add: remdups_adj_snoc R_def)
      have len: "length (history s) \<le> 100" by (simp add: H)
      show ?thesis
      proof (cases "length (history s) \<ge> 100")
        case True
        then have l: "length (history s) = 100" using len by simp
        have "history (addToHistory t s) = trim t # butlast (history s)"
          using False nd True by (auto simp add: history_addToHistory)
        also have "\<dots> = butlast (trim t # history s)" using l by (cases "history s") auto
        also have "\<dots> = take 100 (trim t # history s)" using l by (rule butlast_take_full)
        also have "\<dots> = take 100 (trim t # rev R)"
          unfolding H by (simp add: take_Cons' min_def)
        finally show ?thesis unfolding history_of_snoc s_def[symmetric] by (simp add: r)
      next
        case False'': False
        then have "length (rev R) < 100" unfolding H by (simp add: min_def split: if_splits)
        then have "history s = rev R" "take 100 (trim t # rev R) = trim t # rev R"
          unfolding H by (simp_all add: take_Cons')
        moreover have "history (addToHistory t s) = trim t # history s"
          using False nd False'' by (auto simp add: history_addToHistory)
        ultimately show ?thesis unfolding history_of_snoc s_def[symmetric] by (simp add: r)
      qed
    qed
  qed
qed

text \<open>
  Claim C8. After any sequence of \<open>addToHistory\<close> calls on a new editor, the history has no
  empty string, no two adjacent equal entries, only trimmed strings and at most 100 entries.
  It is most-recent-first: it is exactly the list of the trimmed non-blank texts of the
  calls, a run of equal neighbours counted once, in reverse order of the calls, cut after
  100 entries; in particular, when the last call's text is not blank, its trimmed form is
  the first entry.
\<close>

theorem history_invariant:
  "history_inv (history_of ts)
   \<and> history_of ts = recent_first ts
   \<and> (ts \<noteq> [] \<and> trim (last ts) \<noteq> [] \<longrightarrow> hd (history_of ts) = trim (last ts))"
proof -
  have "history_inv (history Editor_init)" by (simp add: history_inv_def Editor_init_def)
  then have 1: "history_inv (history_of ts)" unfolding history_of_def by (rule history_inv_fold)
  have 2: "hd (history_of ts) = trim (last ts)" if "ts \<noteq> []" "trim (last ts) \<noteq> []"
  proof -
    from that(1) obtain us u where ts: "ts = us @ [u]" by (metis append_butlast_last_id)
    then show ?thesis using that(2) by (simp add: history_of_def history_recent_first)
  qed
  show ?thesis using 1 2 history_of_recent_first by blast
qed

theorem history_invariant_witness:
  "history_inv (history_of [[32, 97, 32], [97], [], [98], [99, 32]])
   \<and> history_of [[32, 97, 32], [97], [], [98], [99, 32]] = [[99], [98], [97]]
   \<and> hd (history_of [[32, 97, 32], [97], [], [98], [99, 32]]) = [99]"
  using history_invariant [of "[[32, 97, 32], [97], [], [98], [99, 32]]"]
  by (simp add: recent_first_def history_inv_def trim_def trimStart_def trimEnd_def isJsSpace_def)

subsection \<open>Editors without an autocomplete provider; the sample environment\<close>

lemma no_provider_tryTrigger: "autocompleteProvider s = None \<Longrightarrow> tryTriggerAutocomplete e s = s"
  by (simp add: tryTriggerAutocomplete_def)

lemma no_provider_update: "autocompleteProvider s = None \<Longrightarrow> updateAutocomplete s = s"
  by (simp add: updateAutocomplete_def)

lemma no_provider_insert_autocomplete:
  "autocompleteProvider s = None \<Longrightarrow> insert_autocomplete c s = s"
  by (simp add: insert_autocomplete_def Let_def no_provider_tryTrigger no_provider_update)

lemma provider_insert_text [simp]: "autocompleteProvider (insert_text c s) = autocompleteProvider s"
  by (simp add: insert_text_def Let_def onChange_def)

lemma insertCharacter_plain:
  "autocompleteProvider s = None \<Longrightarrow> insertCharacter c s = insert_text c s"
  by (simp add: insertCharacter_def no_provider_insert_autocomplete)

lemma handleInput_no_paste:
  "\<not> isInPaste s \<Longrightarrow> \<not> js_includes data PASTE_START \<Longrightarrow> handleInput E data s = handleKey E data s"
  by (subst handleInput.simps) (simp add: Let_def)

lemma handleKey_plain:
  "plain s \<Longrightarrow> data \<noteq> [92] \<Longrightarrow> \<not> kb_matches E data Action_copy
   \<Longrightarrow> handleKey E data s = handle_action E data s"
  by (simp add: handleKey_def plain_def autocomplete_keys_def)

lemma indexOf_absent: "pat \<noteq> [] \<Longrightarrow> hd pat \<notin> set s \<Longrightarrow> indexOf pat s = None"
  by (induction s) (auto simp: prefix_Cons neq_Nil_conv)

lemma not_includes: "pat \<noteq> [] \<Longrightarrow> hd pat \<notin> set s \<Longrightarrow> \<not> js_includes s pat"
  by (simp add: js_includes_def indexOf_absent)

lemma sample_fields:
  "segment sample_env = map (\<lambda>c. [c])"
  "visibleWidth sample_env = (\<lambda>s. length (strip_sgr False s))"
  "isWhitespaceChar sample_env = (\<lambda>g. g = [32] \<or> g = [9])"
  "kb_matches sample_env = sample_matches"
  "matchesKey sample_env = (\<lambda>data k. False)"
  "terminal_rows sample_env = 10"
  "borderColor sample_env = (\<lambda>s. s)"
  by (simp_all add: sample_env_def)

lemma strip_sgr_plain: "27 \<notin> set s \<Longrightarrow> strip_sgr False s = s"
  by (induction s) auto

lemma sample_left:
  "plain s \<Longrightarrow> handleInput sample_env [27, 91, 68] s = moveCursor sample_env 0 (-1) s"
  apply (subst handleInput_no_paste)
    apply (simp add: plain_def)
   apply (simp add: js_includes_def PASTE_START_def)
  apply (subst handleKey_plain)
     apply (simp_all add: sample_fields sample_matches_def)
  apply (simp add: handle_action_def sample_fields sample_matches_def is_newline_input_def
      js_includes_def str_def)
  done

lemma sample_up:
  "plain s \<Longrightarrow> \<not> isEditorEmpty s \<Longrightarrow> historyIndex s = -1
   \<Longrightarrow> handleInput sample_env [27, 91, 65] s = moveCursor sample_env (-1) 0 s"
  apply (subst handleInput_no_paste)
    apply (simp add: plain_def)
   apply (simp add: js_includes_def PASTE_START_def)
  apply (subst handleKey_plain)
     apply (simp_all add: sample_fields sample_matches_def)
  apply (simp add: handle_action_def sample_fields sample_matches_def is_newline_input_def
      js_includes_def str_def)
  done

lemma sample_newline:
  "plain s \<Longrightarrow> handleInput sample_env [10] s = addNewLine s"
  apply (subst handleInput_no_paste)
    apply (simp add: plain_def)
   apply (simp add: js_includes_def PASTE_START_def)
  apply (subst handleKey_plain)
     apply (simp_all add: sample_fields sample_matches_def)
  apply (simp add: handle_action_def sample_fields sample_matches_def is_newline_input_def
      js_includes_def str_def)
  done


lemma sample_text:
  assumes "plain s" and "27 \<notin> set data" and "13 \<notin> set data" and "hd data \<ge> 32"
    and "length data \<ge> 2"
  shows "handleInput sample_env data s = insert_text data s"
proof -
  from assms(5) obtain a b r where d: "data = a # b # r"
    by (metis Suc_le_length_iff numeral_2_eq_2)
  have a: "a \<ge> 32" "a \<noteq> 27" "a \<noteq> 13" using assms d by auto
  have 1: "handleInput sample_env data s = handleKey sample_env data s"
  proof (rule handleInput_no_paste)
    show "\<not> isInPaste s" using assms(1) by (simp add: plain_def)
    show "\<not> js_includes data PASTE_START"
      using assms(2) by (intro not_includes) (simp_all add: PASTE_START_def)
  qed
  have 2: "handleKey sample_env data s = handle_action sample_env data s"
    using assms(1) a by (intro handleKey_plain) (auto simp: d sample_fields sample_matches_def)
  have 3: "decodeKittyPrintable data = None"
    using a by (simp add: decodeKittyPrintable_def kitty_match_def d)
  have 4: "\<not> is_newline_input sample_env data"
    using a assms(2,3) by (auto simp: is_newline_input_def sample_fields sample_matches_def d str_def
        js_includes_def indexOf_absent)
  have "handle_action sample_env data s = insertCharacter data s"
    using a 3 4 by (simp add: handle_action_def sample_fields sample_matches_def d)
  then show ?thesis using 1 2 assms(1) by (simp add: insertCharacter_plain plain_def)
qed


lemma js_slice_take: "0 \<le> k \<Longrightarrow> js_slice s 0 k = take (nat k) s"
  by (simp add: js_slice_def js_index_def Let_def min_def)

lemma js_slice_from_drop: "0 \<le> k \<Longrightarrow> js_slice_from s k = drop (nat k) s"
  by (simp add: js_slice_from_def js_index_def min_def)

subsection \<open>The cursor in the white space a wrap skips\<close>

lemma tokenize_run:
  "cur \<noteq> [] \<Longrightarrow> \<forall>g\<in>set gs. isWhitespaceChar E g = w \<Longrightarrow>
   tokenize E (gs @ rest) toks cur start w idx =
   tokenize E rest toks (cur @ concat gs) start w (idx + length (concat gs))"
  by (induction gs arbitrary: cur idx) (simp_all add: Let_def add.assoc)

lemma trimEnd_id: "s \<noteq> [] \<Longrightarrow> \<not> isJsSpace (last s) \<Longrightarrow> trimEnd s = s"
  by (cases s rule: rev_cases) (simp_all add: trimEnd_def)

lemma concat_replicate_single: "concat (replicate n [x]) = replicate n x"
  by (induction n) simp_all

lemma gap_tokens:
  "tokenize sample_env (segment sample_env gap_line) [] [] 0 False 0 =
     [\<lparr>tok_text = replicate 78 97, tok_startIndex = 0, tok_endIndex = 78, tok_isWhitespace = False\<rparr>,
      \<lparr>tok_text = [32, 32, 32], tok_startIndex = 78, tok_endIndex = 81, tok_isWhitespace = True\<rparr>,
      \<lparr>tok_text = [98], tok_startIndex = 81, tok_endIndex = 82, tok_isWhitespace = False\<rparr>]"
proof -
  have seg: "segment sample_env gap_line = [97] # (replicate 77 [97] @ [[32], [32], [32], [98]])"
    by (simp add: sample_fields gap_line_def map_replicate
        replicate_Suc[of 77 "[97::nat]", symmetric] del: replicate_Suc)
  have run: "tokenize sample_env (replicate 77 [97] @ [[32], [32], [32], [98]]) [] [97] 0 False (Suc 0) =
             tokenize sample_env [[32], [32], [32], [98]] [] ([97] @ concat (replicate 77 [97])) 0 False
               (Suc 0 + length (concat (replicate 77 [97::nat])))"
    by (rule tokenize_run) (simp_all add: sample_fields)
  have r78: "97 # replicate 77 (97::nat) = replicate 78 97"
    by (simp add: replicate_Suc[of 77 "97::nat", symmetric] del: replicate_Suc)
  show ?thesis
    unfolding seg
    by (simp add: sample_fields Let_def run concat_replicate_single r78 del: replicate_Suc)
qed


lemma gap_wrap:
  "wordWrapLine sample_env gap_line 80 =
     [\<lparr>chunk_text = replicate 78 97, startIndex = 0, endIndex = 78\<rparr>,
      \<lparr>chunk_text = [98], startIndex = 81, endIndex = 82\<rparr>]"
proof -
  have ne: "gap_line \<noteq> []" by (simp add: gap_line_def)
  have w: "visibleWidth sample_env gap_line = 82"
    by (simp add: sample_fields strip_sgr_plain gap_line_def)
  have w78: "visibleWidth sample_env (replicate 78 97) = 78"
    by (simp add: sample_fields strip_sgr_plain)
  have w3: "visibleWidth sample_env [32, 32, 32] = 3" "visibleWidth sample_env [98] = 1"
    by (simp_all add: sample_fields)
  have t78: "trimEnd (replicate 78 97) = replicate 78 97"
    by (rule trimEnd_id) (simp_all add: isJsSpace_def)
  have len: "length gap_line = 82" by (simp add: gap_line_def)
  show ?thesis
    by (simp add: wordWrapLine_def ne w gap_tokens Let_def w78 w3 t78 len del: replicate_Suc)
qed


lemma plain_gap_state: "plain (gap_state k)"
  by (simp add: plain_def gap_state_def Editor_init_def)

lemma gap_typed: "handleInput sample_env gap_line Editor_init = gap_state 82"
proof -
  have "handleInput sample_env gap_line Editor_init = insert_text gap_line Editor_init"
    by (rule sample_text) (simp_all add: plain_def Editor_init_def gap_line_def)
  also have "\<dots> = gap_state 82"
    by (simp add: insert_text_def Let_def gap_state_def Editor_init_def js_line_def js_set_def
        js_slice_def js_slice_from_def js_index_def onChange_def getText_def gap_line_def)
  finally show ?thesis .
qed

lemma gap_left:
  assumes "0 < k" "k \<le> 82"
  shows "handleInput sample_env [27, 91, 68] (gap_state k) = gap_state (k - 1)"
proof -
  have len: "length gap_line = 82" by (simp add: gap_line_def)
  have "take (nat k) gap_line \<noteq> []" using assms len by auto
  then have seg: "map (\<lambda>c. [c]) (take (nat k) gap_line) \<noteq> []"
    "length (last (map (\<lambda>c. [c]) (take (nat k) gap_line))) = 1"
    by (simp_all add: last_map)
  have sl: "js_slice gap_line 0 k = take (nat k) gap_line"
    using assms by (simp add: js_slice_take)
  have "handleInput sample_env [27, 91, 68] (gap_state k) = moveCursor sample_env 0 (-1) (gap_state k)"
    by (rule sample_left) (rule plain_gap_state)
  also have "\<dots> = gap_state (k - 1)"
    using assms seg
    by (simp add: moveCursor_def Let_def gap_state_def Editor_init_def js_line_def sl
        sample_fields)
  finally show ?thesis .
qed

lemma gap_map:
  "buildVisualLineMap sample_env 80 (gap_state k) =
     [\<lparr>logicalLine = 0, startCol = 0, vl_length = 78\<rparr>,
      \<lparr>logicalLine = 0, startCol = 81, vl_length = 1\<rparr>]"
proof -
  have w: "visibleWidth sample_env gap_line = 82"
    by (simp add: sample_fields strip_sgr_plain gap_line_def)
  have ne: "gap_line \<noteq> []" by (simp add: gap_line_def)
  show ?thesis
    by (simp add: buildVisualLineMap_def gap_state_def Editor_init_def Let_def w ne gap_wrap)
qed

lemma gap_up: "cursorCol (handleInput sample_env [27, 91, 65] (gap_state 79)) = -2"
proof -
  have len: "length gap_line = 82" by (simp add: gap_line_def)
  have ne: "gap_line \<noteq> []" by (simp add: gap_line_def)
  have "handleInput sample_env [27, 91, 65] (gap_state 79) = moveCursor sample_env (-1) 0 (gap_state 79)"
  proof (rule sample_up)
    show "plain (gap_state 79)" by (rule plain_gap_state)
    show "\<not> isEditorEmpty (gap_state 79)" by (simp add: isEditorEmpty_def gap_state_def ne)
    show "historyIndex (gap_state 79) = -1" by (simp add: gap_state_def)
  qed
  moreover have w: "lastWidth (gap_state 79) = 80" by (simp add: gap_state_def Editor_init_def)
  moreover have "cursorCol (moveCursor sample_env (-1) 0 (gap_state 79)) = -2"
    by (simp add: moveCursor_def w gap_map Let_def findCurrentVisualLine_def vl_at_def
        move_to_visual_line_def)
       (simp add: gap_state_def js_line_def len)
  ultimately show ?thesis by simp
qed

text \<open>
  Claim C3 (the code breaks it). In a new editor, which assumes 80 columns, type the line
  \<open>gap_line\<close> in one input, press cursor-left three times and cursor-up once. The line
  wraps into the chunks \<open>[0, 78)\<close> and \<open>[81, 82)\<close>; column 79 lies in the white space
  between them, which belongs to no visual line, so \<open>findCurrentVisualLine\<close> falls back to
  the last visual line and \<open>moveCursor\<close> computes the visual column \<open>79 - 81\<close>. After the
  four first events the cursor is at line 0, column 79; after cursor-up the column is \<open>-2\<close>
  and the invariant is broken.
\<close>

theorem cursor_up_from_gap:
  "fold (handleInput sample_env) [gap_line, [27, 91, 68], [27, 91, 68], [27, 91, 68]] Editor_init
     = gap_state 79
   \<and> cursorCol (fold (handleInput sample_env)
        [gap_line, [27, 91, 68], [27, 91, 68], [27, 91, 68], [27, 91, 65]] Editor_init) = -2
   \<and> \<not> cursor_inv sample_env (fold (handleInput sample_env)
        [gap_line, [27, 91, 68], [27, 91, 68], [27, 91, 68], [27, 91, 65]] Editor_init)"
proof -
  have a: "fold (handleInput sample_env) [gap_line, [27, 91, 68], [27, 91, 68], [27, 91, 68]]
             Editor_init = gap_state 79"
    using gap_left[of 82] gap_left[of 81] gap_left[of 80] by (simp add: gap_typed)
  have b: "cursorCol (fold (handleInput sample_env)
        [gap_line, [27, 91, 68], [27, 91, 68], [27, 91, 68], [27, 91, 65]] Editor_init) = -2"
    using a gap_up by simp
  show ?thesis using a b by (simp add: cursor_inv_def)
qed

subsection \<open>The scroll indicator in a narrow editor\<close>

lemma addNewLine_fields:
  "plain (addNewLine s) = plain s" 
  "scrollOffset (addNewLine s) = scrollOffset s" "paddingX (addNewLine s) = paddingX s"
  "borderStyle (addNewLine s) = borderStyle s" "isAutocompleting (addNewLine s) = isAutocompleting s"
  "cursorLine (addNewLine s) = cursorLine s + 1" "cursorCol (addNewLine s) = 0"
  by (simp_all add: addNewLine_def Let_def onChange_def plain_def)

lemma addNewLine_empty_lines:
  assumes "lines s = replicate (Suc n) []" "cursorLine s = int n" "cursorCol s = 0"
  shows "lines (addNewLine s) = replicate (Suc (Suc n)) []"
proof -
  have a: "js_line (replicate (Suc n) []) (int n) = []"
    by (simp add: js_line_def del: replicate_Suc)
  have "(replicate (Suc n) ([]::jsstring))[n := []] = replicate (Suc n) []"
    using list_update_id[of "replicate (Suc n) ([]::jsstring)" n] by (simp del: replicate_Suc)
  then have b: "js_set (replicate (Suc n) []) (int n) [] = replicate (Suc n) []"
    by (simp add: js_set_def del: replicate_Suc)
  have c: "js_splice_insert (replicate (Suc n) []) (int n + 1) [] = replicate (Suc (Suc n)) []"
  proof -
    have "nat (int n + 1) = Suc n" by simp
    then show ?thesis
      by (simp add: js_splice_insert_def js_index_def replicate_append_same)
  qed
  show ?thesis
    using assms
    by (simp add: addNewLine_def Let_def onChange_def a b c js_slice_def js_slice_from_def
        del: replicate_Suc)
qed

lemma five_newlines:
  "six_lines (fold (handleInput sample_env) [[10], [10], [10], [10], [10]] Editor_init)"
proof -
  define t where "t n = fold (handleInput sample_env) (replicate n [10]) Editor_init" for n
  have step: "t (Suc n) = handleInput sample_env [10] (t n)" for n
    by (simp add: t_def replicate_append_same[symmetric] del: replicate_Suc)
  have inv: "plain (t n) \<and> lines (t n) = replicate (Suc n) [] \<and> cursorLine (t n) = int n
             \<and> cursorCol (t n) = 0 \<and> scrollOffset (t n) = 0 \<and> paddingX (t n) = 0
             \<and> borderStyle (t n) = Border_rounded \<and> \<not> isAutocompleting (t n)" for n
  proof (induction n)
    case 0
    show ?case by (simp add: t_def plain_def Editor_init_def)
  next
    case (Suc n)
    then have "plain (t n)" by simp
    then have "t (Suc n) = addNewLine (t n)" unfolding step by (rule sample_newline)
    then show ?case using Suc by (simp add: addNewLine_fields addNewLine_empty_lines del: replicate_Suc)
  qed
  have "t 5 = fold (handleInput sample_env) [[10], [10], [10], [10], [10]] Editor_init"
    by (simp add: t_def eval_nat_numeral)
  then show ?thesis using inv[of 5] by (simp add: six_lines_def eval_nat_numeral)
qed


lemma upt6: "[0..<6] = [0, 1, 2, 3, 4, 5]"
  by (simp add: upt_conv_Cons)


lemma layout_six:
  assumes "six_lines s"
  shows "layoutText sample_env 10 (s\<lparr>lastWidth := 10\<rparr>) =
      [\<lparr>ll_text = [], hasCursor = False, cursorPos = None\<rparr>,
       \<lparr>ll_text = [], hasCursor = False, cursorPos = None\<rparr>,
       \<lparr>ll_text = [], hasCursor = False, cursorPos = None\<rparr>,
       \<lparr>ll_text = [], hasCursor = False, cursorPos = None\<rparr>,
       \<lparr>ll_text = [], hasCursor = False, cursorPos = None\<rparr>,
       \<lparr>ll_text = [], hasCursor = True, cursorPos = Some 0\<rparr>]"
  using assms by (simp add: six_lines_def layoutText_def upt6 Let_def sample_fields)

lemma border_six:
  "scroll_border sample_env 10 8593 1 = [9472, 9472, 9472, 32, 8593, 32, 49, 32, 109, 111, 114, 101, 32]"
  by (simp add: scroll_border_def Let_def sample_fields digits_of.simps str_def)

lemma line_plain: "render_line sample_env 10 0 b \<lparr>ll_text = [], hasCursor = False, cursorPos = None\<rparr>
   = replicate 10 32"
  by (simp add: render_line_def Let_def sample_fields)

lemma line_cursor: "render_line sample_env 10 0 b \<lparr>ll_text = [], hasCursor = True, cursorPos = Some 0\<rparr>
   = [27, 91, 55, 109, 32, 27, 91, 48, 109] @ replicate 9 32"
  by (simp add: render_line_def Let_def sample_fields js_slice_def js_slice_from_def js_index_def
      reverse_video_def sample_env_def)




lemma render_six:
  assumes "six_lines s"
  shows "fst (render sample_env 10 s) =
     [[9581, 9472, 9472, 32, 8593, 32, 49, 32, 109, 111, 114, 101, 9582],
      replicate 10 32, replicate 10 32, replicate 10 32, replicate 10 32,
      [27, 91, 55, 109, 32, 27, 91, 48, 109] @ replicate 9 32,
      9584 # replicate 8 9472 @ [9583]]"
proof -
  have ps: "page_size sample_env = 5" by (simp add: page_size_def sample_fields)
  have f: "paddingX s = 0" "scrollOffset s = 0" "borderStyle s = Border_rounded"
    "\<not> isAutocompleting s"
    using assms by (simp_all add: six_lines_def)
  have fb: "formatBorder (s\<lparr>lastWidth := 10, scrollOffset := 1\<rparr>)
              [9472, 9472, 9472, 32, 8593, 32, 49, 32, 109, 111, 114, 101, 32] Position_top
            = [9581, 9472, 9472, 32, 8593, 32, 49, 32, 109, 111, 114, 101, 9582]"
    by (simp add: formatBorder_def f js_slice_def js_index_def)
  have fb2: "formatBorder (s\<lparr>lastWidth := 10, scrollOffset := 1\<rparr>) (replicate 10 9472) Position_bottom
            = 9584 # replicate 8 9472 @ [9583]"
    by (simp add: formatBorder_def f js_slice_def js_index_def)
  show ?thesis
    by (simp add: render_def Let_def ps f layout_six[OF assms] border_six fb fb2 line_plain
        line_cursor sample_fields del: replicate.simps cong: let_weak_cong)
qed

text \<open>
  Claim C4 (the code breaks it). With ten terminal rows at most five lines are visible.
  After five newlines in a new editor the cursor is on the sixth line, so \<open>render(10)\<close>
  scrolls by one and puts the indicator into the top border: that line is 13 cells wide,
  not 10, since the indicator is never cut to the width.
\<close>

theorem narrow_scroll_border:
  "map (visibleWidth sample_env)
     (fst (render sample_env 10
        (fold (handleInput sample_env) [[10], [10], [10], [10], [10]] Editor_init)))
   = [13, 10, 10, 10, 10, 10, 10]"
  unfolding render_six[OF five_newlines] by (simp add: sample_fields strip_sgr_plain)

subsection \<open>Kitty CSI-u sequences\<close>

lemma takeWhile_digits:
  "list_all isDigit d \<Longrightarrow> \<not> isDigit c \<Longrightarrow> takeWhile isDigit (d @ c # r) = d"
  by (induction d) auto

lemma dropWhile_digits:
  "list_all isDigit d \<Longrightarrow> \<not> isDigit c \<Longrightarrow> dropWhile isDigit (d @ c # r) = c # r"
  by (induction d) auto

lemma nondigit [simp]: "\<not> isDigit 58" "\<not> isDigit 59" "\<not> isDigit 117"
  by (simp_all add: isDigit_def)

lemma opt_group_take:
  "d \<noteq> [] \<Longrightarrow> list_all isDigit d \<Longrightarrow> \<not> isDigit c \<Longrightarrow> opt_group sep (sep # d @ c # r) = (Some d, c # r)"
  by (simp add: opt_group_def takeWhile_digits dropWhile_digits)

lemma opt_group_skip:
  "c \<noteq> sep \<Longrightarrow> opt_group sep (c # r) = (None, c # r)"
  by (simp add: opt_group_def)

lemma opt_group_star_take:
  "list_all isDigit d \<Longrightarrow> \<not> isDigit c \<Longrightarrow> opt_group_star sep (sep # d @ c # r) = (Some d, c # r)"
  by (simp add: opt_group_star_def takeWhile_digits dropWhile_digits)

lemma opt_group_star_skip:
  "c \<noteq> sep \<Longrightarrow> opt_group_star sep (c # r) = (None, c # r)"
  by (simp add: opt_group_star_def)

lemma kitty_match_csi_u:
  assumes "csi_fields cp shifted base md sub"
  shows "kitty_match (csi_u cp shifted base md sub) = Some (cp, shifted, base, md, sub)"
  using assms
  by (cases shifted; cases base; cases md; cases sub)
     (simp_all add: kitty_match_def csi_u_def opt_field_def csi_fields_def digit_string_def
       takeWhile_digits dropWhile_digits opt_group_take opt_group_skip opt_group_star_take
       opt_group_star_skip Let_def)


subsection \<open>Typing and pasting\<close>

lemma insert_text_fields:
  "cursorLine (insert_text c s) = cursorLine s"
  "cursorCol (insert_text c s) = cursorCol s + int (length c)"
  "pastes (insert_text c s) = pastes s"
  "pasteCounter (insert_text c s) = pasteCounter s"
  "history (insert_text c s) = history s"
  "historyIndex (insert_text c s) = -1"
  "submitLog (insert_text c s) = submitLog s"
  "disableSubmit (insert_text c s) = disableSubmit s"
  "isInPaste (insert_text c s) = isInPaste s"
  "pendingShiftEnter (insert_text c s) = pendingShiftEnter s"
  "changeLog (insert_text c s) = changeLog s @ [getText (insert_text c s)]"
  by (simp_all add: insert_text_def Let_def onChange_def getText_def)

lemma insert_text_lines:
  "cursor_ok s \<Longrightarrow> lines (insert_text c s) = spliced s c"
  by (simp add: insert_text_def Let_def onChange_def cursor_ok_def js_line_def js_set_def
      js_slice_take js_slice_from_drop spliced_def text_before_def text_after_def)

lemma cursor_ok_nat:
  "cursor_ok s \<Longrightarrow> nat (cursorLine s) < length (lines s)
     \<and> nat (cursorCol s) \<le> length (lines s ! nat (cursorLine s))"
  by (auto simp: cursor_ok_def)

lemma insert_text_ok: "cursor_ok s \<Longrightarrow> cursor_ok (insert_text c s)"
  using cursor_ok_nat[of s]
  by (simp add: cursor_ok_def insert_text_lines insert_text_fields spliced_def text_before_def
      text_after_def min_def)

lemma spliced_insert_text:
  "cursor_ok s \<Longrightarrow> spliced (insert_text c s) t = spliced s (c @ t)"
  using cursor_ok_nat[of s]
  by (simp add: spliced_def text_before_def text_after_def insert_text_lines insert_text_fields
      cursor_ok_def nat_add_distrib min_def)

lemma fold_insert_text:
  "cursor_ok s \<Longrightarrow>
   cursor_ok (fold insert_text cs s) \<and> cursorLine (fold insert_text cs s) = cursorLine s
   \<and> cursorCol (fold insert_text cs s) = cursorCol s + int (length (concat cs))
   \<and> (\<forall>t. spliced (fold insert_text cs s) t = spliced s (concat cs @ t))"
proof (induction cs arbitrary: s)
  case Nil
  then show ?case by simp
next
  case (Cons c cs)
  from Cons.IH[OF insert_text_ok[OF Cons.prems]] show ?case
    by (simp add: insert_text_fields spliced_insert_text[OF Cons.prems])
qed

lemma spliced_self: "spliced s [] = lines s"
  by (simp add: spliced_def text_before_def text_after_def)

lemma fold_insert_text_lines:
  "cursor_ok s \<Longrightarrow> lines (fold insert_text cs s) = spliced s (concat cs)"
  using fold_insert_text[of s cs] spliced_self[of "fold insert_text cs s"] by simp

lemma fold_insert_text_frame:
  "pastes (fold insert_text cs s) = pastes s \<and> pasteCounter (fold insert_text cs s) = pasteCounter s
   \<and> history (fold insert_text cs s) = history s \<and> submitLog (fold insert_text cs s) = submitLog s
   \<and> disableSubmit (fold insert_text cs s) = disableSubmit s
   \<and> length (changeLog (fold insert_text cs s)) = length (changeLog s) + length cs"
  by (induction cs arbitrary: s) (simp_all add: insert_text_fields)

lemma concat_codePoints: "concat (codePoints t) = t"
  by (induction t rule: codePoints.induct) simp_all

lemma strip_cancel: "strip_ac (cancelAutocomplete s) = strip_ac s"
  by (simp add: strip_ac_def cancelAutocomplete_def)

lemma strip_show: "strip_ac (show_suggestions x s) = strip_ac s"
  by (auto simp: show_suggestions_def strip_cancel split: option.split) (simp add: strip_ac_def)

lemma strip_tryTrigger: "strip_ac (tryTriggerAutocomplete e s) = strip_ac s"
  by (simp add: tryTriggerAutocomplete_def strip_show split: option.split)

lemma strip_update: "strip_ac (updateAutocomplete s) = strip_ac s"
  by (auto simp: updateAutocomplete_def strip_cancel split: option.split) (simp add: strip_ac_def)

lemma strip_retrigger: "strip_ac (retrigger_autocomplete s) = strip_ac s"
  by (simp add: retrigger_autocomplete_def Let_def strip_tryTrigger strip_update)

lemma strip_insert_autocomplete: "strip_ac (insert_autocomplete c s) = strip_ac s"
  by (simp add: insert_autocomplete_def Let_def strip_tryTrigger strip_update)

lemma strip_insert_text: "strip_ac (insert_text c s) = insert_text c (strip_ac s)"
  by (simp add: insert_text_def strip_ac_def Let_def onChange_def getText_def)

lemma strip_insertCharacter: "strip_ac (insertCharacter c s) = insert_text c (strip_ac s)"
  by (simp add: insertCharacter_def strip_insert_autocomplete strip_insert_text)

lemma strip_fold_insert:
  "strip_ac (fold insertCharacter cs s) = fold insert_text cs (strip_ac s)"
  by (induction cs arbitrary: s) (simp_all add: strip_insertCharacter)

lemma strip_fields:
  "lines (strip_ac s) = lines s" "cursorLine (strip_ac s) = cursorLine s"
  "cursorCol (strip_ac s) = cursorCol s" "pastes (strip_ac s) = pastes s"
  "pasteCounter (strip_ac s) = pasteCounter s" "history (strip_ac s) = history s"
  "historyIndex (strip_ac s) = historyIndex s" "changeLog (strip_ac s) = changeLog s"
  "submitLog (strip_ac s) = submitLog s" "disableSubmit (strip_ac s) = disableSubmit s"
  by (simp_all add: strip_ac_def)

lemma strip_cursor_ok: "cursor_ok (strip_ac s) = cursor_ok s"
  by (simp add: cursor_ok_def strip_fields)

lemma strip_spliced: "spliced (strip_ac s) t = spliced s t"
  by (simp add: spliced_def text_before_def text_after_def strip_fields)

text \<open>What typing the code points of a text does to the buffer, in any state.\<close>

lemma insert_text_at_cursor:
  assumes "cursor_ok s"
  shows "lines (fold insertCharacter (codePoints t) s) = spliced s t"
    and "cursorLine (fold insertCharacter (codePoints t) s) = cursorLine s"
    and "cursorCol (fold insertCharacter (codePoints t) s) = cursorCol s + int (length t)"
    and "cursor_ok (fold insertCharacter (codePoints t) s)"
proof -
  let ?r = "fold insertCharacter (codePoints t) s"
  have r: "strip_ac ?r = fold insert_text (codePoints t) (strip_ac s)"
    by (rule strip_fold_insert)
  have ok: "cursor_ok (strip_ac s)" using assms by (simp add: strip_cursor_ok)
  note f = fold_insert_text[OF ok, of "codePoints t", folded r, unfolded concat_codePoints]
  show "lines ?r = spliced s t"
    using fold_insert_text_lines[OF ok, of "codePoints t", folded r]
    by (simp add: strip_fields strip_spliced concat_codePoints)
  show "cursorLine ?r = cursorLine s" using f by (simp add: strip_fields)
  show "cursorCol ?r = cursorCol s + int (length t)" using f by (simp add: strip_fields)
  show "cursor_ok ?r" using f by (simp add: strip_cursor_ok)
qed

lemma insert_text_at_cursor_frame:
  "pastes (fold insertCharacter cs s) = pastes s"
  "pasteCounter (fold insertCharacter cs s) = pasteCounter s"
  "history (fold insertCharacter cs s) = history s"
  "submitLog (fold insertCharacter cs s) = submitLog s"
  "disableSubmit (fold insertCharacter cs s) = disableSubmit s"
  "length (changeLog (fold insertCharacter cs s)) = length (changeLog s) + length cs"
proof -
  let ?r = "fold insertCharacter cs s"
  have r: "strip_ac ?r = fold insert_text cs (strip_ac s)"
    by (rule strip_fold_insert)
  note f = fold_insert_text_frame[of cs "strip_ac s", folded r]
  show "pastes ?r = pastes s" "pasteCounter ?r = pasteCounter s" "history ?r = history s"
    "submitLog ?r = submitLog s" "disableSubmit ?r = disableSubmit s"
    "length (changeLog ?r) = length (changeLog s) + length cs"
    using f by (simp_all add: strip_fields)
qed

lemma js_lines_range:
  assumes "0 \<le> a" "b < int (length ls)"
  shows "map (js_line ls) [a..b] = take (nat (b - a + 1)) (drop (nat a) ls)"
proof (rule nth_equalityI)
  show "length (map (js_line ls) [a..b]) = length (take (nat (b - a + 1)) (drop (nat a) ls))"
    using assms by simp
next
  fix i assume "i < length (map (js_line ls) [a..b])"
  then have i: "a + int i \<le> b" by simp
  then have "[a..b] ! i = a + int i" by simp
  moreover have "js_line ls (a + int i) = ls ! (nat a + i)"
    using assms i by (simp add: js_line_def nat_add_distrib)
  moreover have "i < nat (b - a + 1)" using i by simp
  ultimately show "map (js_line ls) [a..b] ! i = take (nat (b - a + 1)) (drop (nat a) ls) ! i"
    using assms i by simp
qed

lemma filtered_paste_history [simp]:
  "filtered_paste t (s\<lparr>historyIndex := h\<rparr>) = filtered_paste t s"
  by (simp add: filtered_paste_def Let_def)

lemma cursor_ok_upd [simp]:
  "cursor_ok (s\<lparr>historyIndex := h\<rparr>) = cursor_ok s"
  "cursor_ok (s\<lparr>pasteCounter := c\<rparr>) = cursor_ok s"
  "cursor_ok (s\<lparr>pastes := p\<rparr>) = cursor_ok s"
  by (simp_all add: cursor_ok_def)

lemma spliced_upd [simp]:
  "spliced (s\<lparr>historyIndex := h\<rparr>) t = spliced s t"
  "spliced (s\<lparr>pasteCounter := c\<rparr>) t = spliced s t"
  "spliced (s\<lparr>pastes := p\<rparr>) t = spliced s t"
  by (simp_all add: spliced_def text_before_def text_after_def)

lemma spliced_as_lines:
  "cursor_ok s \<Longrightarrow>
   spliced s t = take (nat (cursorLine s)) (lines s) @ [text_before s @ t @ text_after s]
                 @ drop (Suc (nat (cursorLine s))) (lines s)"
  using cursor_ok_nat[of s] by (simp add: spliced_def upd_conv_take_nth_drop)

lemma handlePaste_large:
  assumes "large_paste t s"
  shows "handlePaste t s =
     fold insertCharacter
       (codePoints (paste_marker (pasteCounter s + 1) (length (paste_lines t s))
          (length (filtered_paste t s))))
       (s\<lparr>historyIndex := -1, pasteCounter := pasteCounter s + 1,
          pastes := map_set (pasteCounter s + 1) (filtered_paste t s) (pastes s)\<rparr>)"
  using assms by (simp add: handlePaste_def Let_def large_paste_def paste_lines_def cong: let_weak_cong)

lemma handlePaste_single:
  assumes "\<not> large_paste t s" "length (paste_lines t s) = 1"
  shows "handlePaste t s =
     fold insertCharacter (codePoints (hd (paste_lines t s))) (s\<lparr>historyIndex := -1\<rparr>)"
  using assms by (simp add: handlePaste_def Let_def large_paste_def paste_lines_def cong: let_weak_cong)

lemma two_lines: "xs \<noteq> [] \<Longrightarrow> length xs \<noteq> 1 \<Longrightarrow> \<exists>l m ls. xs = l # m # ls"
  by (cases xs; cases "tl xs") auto

lemma lines_before_cursor:
  "cursor_ok s \<Longrightarrow> map (js_line (lines s)) [0..cursorLine s - 1] = take (nat (cursorLine s)) (lines s)"
  using js_lines_range[of 0 "cursorLine s - 1" "lines s"] by (simp add: cursor_ok_def)

lemma lines_after_cursor:
  assumes "cursor_ok s"
  shows "map (js_line (lines s)) [cursorLine s + 1..int (length (lines s)) - 1]
              = drop (Suc (nat (cursorLine s))) (lines s)"
proof -
  have n: "0 \<le> cursorLine s" "cursorLine s < int (length (lines s))"
    using assms by (simp_all add: cursor_ok_def)
  have a: "nat (cursorLine s + 1) = Suc (nat (cursorLine s))" using n by simp
  have b: "nat (int (length (lines s)) - 1 - (cursorLine s + 1) + 1) = length (lines s) - Suc (nat (cursorLine s))"
    using n by simp
  show ?thesis
    using js_lines_range[of "cursorLine s + 1" "int (length (lines s)) - 1" "lines s"] n
    unfolding a b by simp
qed

lemma handlePaste_multi_branch:
  assumes "\<not> large_paste t s" "length (paste_lines t s) \<noteq> 1"
  shows "handlePaste t s =
     (let currentLine = js_line (lines s) (cursorLine s);
          beforeCursor = js_slice currentLine 0 (cursorCol s);
          afterCursor = js_slice_from currentLine (cursorCol s);
          newLines =
            map (js_line (lines s)) [0 .. cursorLine s - 1]
            @ [beforeCursor @ hd (paste_lines t s)]
            @ butlast (tl (paste_lines t s))
            @ [last (paste_lines t s) @ afterCursor]
            @ map (js_line (lines s)) [cursorLine s + 1 .. int (length (lines s)) - 1];
          s1 = s\<lparr>historyIndex := -1, lines := newLines,
                 cursorLine := cursorLine s + (int (length (paste_lines t s)) - 1),
                 cursorCol := int (length (last (paste_lines t s)))\<rparr>
      in onChange (getText s1) s1)"
  using assms
  by (simp add: handlePaste_def Let_def large_paste_def paste_lines_def cong: let_weak_cong)

lemma splice_two:
  "splice_lines b (l # m # ls) a = (b @ l) # butlast (m # ls) @ [last (m # ls) @ a]"
  by (simp add: splice_lines_def)

lemma handlePaste_multi:
  assumes "cursor_ok s" "\<not> large_paste t s" "length (paste_lines t s) \<noteq> 1"
  shows "lines (handlePaste t s) =
           take (nat (cursorLine s)) (lines s)
           @ splice_lines (text_before s) (paste_lines t s) (text_after s)
           @ drop (Suc (nat (cursorLine s))) (lines s)"
    and "cursorLine (handlePaste t s) = cursorLine s + (int (length (paste_lines t s)) - 1)"
    and "cursorCol (handlePaste t s) = int (length (last (paste_lines t s)))"
    and "pastes (handlePaste t s) = pastes s" and "pasteCounter (handlePaste t s) = pasteCounter s"
    and "length (changeLog (handlePaste t s)) = length (changeLog s) + 1"
proof -
  have "paste_lines t s \<noteq> []" by (simp add: paste_lines_def split_on_nonempty)
  with assms(3) obtain l m ls where pl: "paste_lines t s = l # m # ls"
    using two_lines by blast
  have n: "0 \<le> cursorLine s" "cursorLine s < int (length (lines s))" "0 \<le> cursorCol s"
    using assms(1) by (simp_all add: cursor_ok_def)
  have cur: "js_line (lines s) (cursorLine s) = lines s ! nat (cursorLine s)"
    using n by (simp add: js_line_def)
  have b: "js_slice (lines s ! nat (cursorLine s)) 0 (cursorCol s) = text_before s"
    using n by (simp add: js_slice_take text_before_def)
  have a: "js_slice_from (lines s ! nat (cursorLine s)) (cursorCol s) = text_after s"
    using n by (simp add: js_slice_from_drop text_after_def)
  note eq = handlePaste_multi_branch[OF assms(2,3), unfolded Let_def cur a b
      lines_before_cursor[OF assms(1)] lines_after_cursor[OF assms(1)]]
  show "lines (handlePaste t s) =
           take (nat (cursorLine s)) (lines s)
           @ splice_lines (text_before s) (paste_lines t s) (text_after s)
           @ drop (Suc (nat (cursorLine s))) (lines s)"
    unfolding eq by (simp add: onChange_def pl splice_two)
  show "cursorLine (handlePaste t s) = cursorLine s + (int (length (paste_lines t s)) - 1)"
    and "cursorCol (handlePaste t s) = int (length (last (paste_lines t s)))"
    and "pastes (handlePaste t s) = pastes s" and "pasteCounter (handlePaste t s) = pasteCounter s"
    and "length (changeLog (handlePaste t s)) = length (changeLog s) + 1"
    unfolding eq by (simp_all add: onChange_def)
qed

lemma map_set_fresh: "k \<notin> fst ` set m \<Longrightarrow> map_set k v m = m @ [(k, v)]"
  by (induction m) auto

lemma handlePaste_large_fields:
  assumes "cursor_ok s" "large_paste t s"
  defines "m \<equiv> paste_marker (pasteCounter s + 1) (length (paste_lines t s))
                 (length (filtered_paste t s))"
  shows "pasteCounter (handlePaste t s) = pasteCounter s + 1"
    and "pastes (handlePaste t s) = map_set (pasteCounter s + 1) (filtered_paste t s) (pastes s)"
    and "lines (handlePaste t s) = spliced s m"
    and "cursorLine (handlePaste t s) = cursorLine s"
    and "cursorCol (handlePaste t s) = cursorCol s + int (length m)"
    and "length (changeLog (handlePaste t s)) = length (changeLog s) + length (codePoints m)"
proof -
  let ?s1 = "s\<lparr>historyIndex := -1, pasteCounter := pasteCounter s + 1,
          pastes := map_set (pasteCounter s + 1) (filtered_paste t s) (pastes s)\<rparr>"
  have eq: "handlePaste t s = fold insertCharacter (codePoints m) ?s1"
    unfolding m_def by (rule handlePaste_large[OF assms(2)])
  have ok: "cursor_ok ?s1" using assms(1) by simp
  show "pasteCounter (handlePaste t s) = pasteCounter s + 1"
    and "pastes (handlePaste t s) = map_set (pasteCounter s + 1) (filtered_paste t s) (pastes s)"
    and "length (changeLog (handlePaste t s)) = length (changeLog s) + length (codePoints m)"
    unfolding eq by (simp_all add: insert_text_at_cursor_frame)
  show "lines (handlePaste t s) = spliced s m"
    and "cursorLine (handlePaste t s) = cursorLine s"
    and "cursorCol (handlePaste t s) = cursorCol s + int (length m)"
    unfolding eq using insert_text_at_cursor[OF ok, of m] by simp_all
qed

lemma handlePaste_small_fields:
  assumes "cursor_ok s" "\<not> large_paste t s"
  shows "lines (handlePaste t s) =
           take (nat (cursorLine s)) (lines s)
           @ splice_lines (text_before s) (paste_lines t s) (text_after s)
           @ drop (Suc (nat (cursorLine s))) (lines s)"
    and "cursorLine (handlePaste t s) = cursorLine s + (int (length (paste_lines t s)) - 1)"
    and "cursorCol (handlePaste t s) =
           (if length (paste_lines t s) = 1 then cursorCol s else 0)
           + int (length (last (paste_lines t s)))"
    and "pastes (handlePaste t s) = pastes s" and "pasteCounter (handlePaste t s) = pasteCounter s"
proof -
  have "lines (handlePaste t s) =
           take (nat (cursorLine s)) (lines s)
           @ splice_lines (text_before s) (paste_lines t s) (text_after s)
           @ drop (Suc (nat (cursorLine s))) (lines s)
        \<and> cursorLine (handlePaste t s) = cursorLine s + (int (length (paste_lines t s)) - 1)
        \<and> cursorCol (handlePaste t s) =
           (if length (paste_lines t s) = 1 then cursorCol s else 0)
           + int (length (last (paste_lines t s)))
        \<and> pastes (handlePaste t s) = pastes s \<and> pasteCounter (handlePaste t s) = pasteCounter s"
  proof (cases "length (paste_lines t s) = 1")
    case True
    then obtain l where pl: "paste_lines t s = [l]" by (cases "paste_lines t s") auto
    have eq: "handlePaste t s = fold insertCharacter (codePoints l) (s\<lparr>historyIndex := -1\<rparr>)"
      using handlePaste_single[OF assms(2) True] by (simp add: pl)
    have ok: "cursor_ok (s\<lparr>historyIndex := -1\<rparr>)" using assms(1) by simp
    show ?thesis
      unfolding eq
      by (simp add: insert_text_at_cursor[OF ok] insert_text_at_cursor_frame pl splice_lines_def
          spliced_as_lines[OF assms(1)])
  next
    case False
    show ?thesis
      using handlePaste_multi[OF assms False] False by simp
  qed
  then show "lines (handlePaste t s) =
           take (nat (cursorLine s)) (lines s)
           @ splice_lines (text_before s) (paste_lines t s) (text_after s)
           @ drop (Suc (nat (cursorLine s))) (lines s)"
    and "cursorLine (handlePaste t s) = cursorLine s + (int (length (paste_lines t s)) - 1)"
    and "cursorCol (handlePaste t s) =
           (if length (paste_lines t s) = 1 then cursorCol s else 0)
           + int (length (last (paste_lines t s)))"
    and "pastes (handlePaste t s) = pastes s" and "pasteCounter (handlePaste t s) = pasteCounter s"
    by simp_all
qed

text \<open>
  Claim C6. For every pasted text and every state with a valid cursor, with the cleaned text
  \<open>filtered_paste t s\<close>: the large-paste branch is taken exactly when the cleaned text has
  more than 10 lines or more than 1000 characters. Then the paste counter goes up by one and
  is the new id, the cleaned text is stored under it (as a new last entry when no stored id
  is above the counter, so the id is fresh), and the marker is put in at the cursor, the
  cursor moving to its end; the marker is \<open>[paste #id +n lines]\<close> when the line count is
  above 10 and \<open>[paste #id c chars]\<close> otherwise. In the other case counter and table stay
  and the lines are spliced into the buffer at the cursor.
\<close>

theorem paste_policy:
  assumes "cursor_ok s"
  shows "(large_paste t s \<longrightarrow>
            pasteCounter (handlePaste t s) = pasteCounter s + 1
          \<and> pastes (handlePaste t s)
              = map_set (pasteCounter s + 1) (filtered_paste t s) (pastes s)
          \<and> ((\<forall>k \<in> fst ` set (pastes s). k \<le> pasteCounter s) \<longrightarrow>
                pastes (handlePaste t s) = pastes s @ [(pasteCounter s + 1, filtered_paste t s)])
          \<and> lines (handlePaste t s)
              = spliced s (paste_marker (pasteCounter s + 1) (length (paste_lines t s))
                             (length (filtered_paste t s)))
          \<and> cursorLine (handlePaste t s) = cursorLine s
          \<and> cursorCol (handlePaste t s)
              = cursorCol s + int (length (paste_marker (pasteCounter s + 1)
                                     (length (paste_lines t s)) (length (filtered_paste t s)))))
       \<and> (\<not> large_paste t s \<longrightarrow>
            pasteCounter (handlePaste t s) = pasteCounter s
          \<and> pastes (handlePaste t s) = pastes s
          \<and> lines (handlePaste t s)
              = take (nat (cursorLine s)) (lines s)
                @ splice_lines (text_before s) (paste_lines t s) (text_after s)
                @ drop (Suc (nat (cursorLine s))) (lines s)
          \<and> cursorLine (handlePaste t s) = cursorLine s + (int (length (paste_lines t s)) - 1)
          \<and> cursorCol (handlePaste t s)
              = (if length (paste_lines t s) = 1 then cursorCol s else 0)
                + int (length (last (paste_lines t s))))
       \<and> (10 < n \<longrightarrow> paste_marker i n c
              = str ''[paste #'' @ digits_of i @ str '' +'' @ digits_of n @ str '' lines]'')
       \<and> (n \<le> 10 \<longrightarrow> paste_marker i n c
              = str ''[paste #'' @ digits_of i @ str '' '' @ digits_of c @ str '' chars]'')"
proof -
  have fresh: "pastes (handlePaste t s) = pastes s @ [(pasteCounter s + 1, filtered_paste t s)]"
    if "large_paste t s" "\<forall>k \<in> fst ` set (pastes s). k \<le> pasteCounter s"
  proof -
    have "pasteCounter s + 1 \<notin> fst ` set (pastes s)" using that(2) by fastforce
    then show ?thesis
      using handlePaste_large_fields(2)[OF assms that(1)] by (simp add: map_set_fresh)
  qed
  show ?thesis
    using handlePaste_large_fields[OF assms, of t] handlePaste_small_fields[OF assms, of t] fresh
    by (simp add: paste_marker_def)
qed

theorem paste_policy_witness:
  "pasteCounter (handlePaste [10, 10, 10, 10, 10, 10, 10, 10, 10, 10, 10] Editor_init) = 1
   \<and> pastes (handlePaste [10, 10, 10, 10, 10, 10, 10, 10, 10, 10, 10] Editor_init) = [(1, [10, 10, 10, 10, 10, 10, 10, 10, 10, 10, 10])]
   \<and> lines (handlePaste [10, 10, 10, 10, 10, 10, 10, 10, 10, 10, 10] Editor_init) = [str ''[paste #1 +12 lines]'']
   \<and> lines (handlePaste [97, 10, 98] Editor_init) = [[97], [98]]"
proof -
  have ok: "cursor_ok Editor_init" by (simp add: cursor_ok_def Editor_init_def)
  have e: "lines Editor_init = [[]]" "cursorLine Editor_init = 0" "cursorCol Editor_init = 0"
    "pastes Editor_init = []" "pasteCounter Editor_init = 0"
    by (simp_all add: Editor_init_def)
  have c1: "clean_paste [10, 10, 10, 10, 10, 10, 10, 10, 10, 10, 10] = [10, 10, 10, 10, 10, 10, 10, 10, 10, 10, 10]"
    by (simp add: clean_paste_def replace_cr_def replace_tabs_def NL_def CR_def TAB_def)
  have f1: "filtered_paste [10, 10, 10, 10, 10, 10, 10, 10, 10, 10, 10] Editor_init = [10, 10, 10, 10, 10, 10, 10, 10, 10, 10, 10]"
    by (simp add: filtered_paste_def c1 Let_def)
  have p1: "length (paste_lines [10, 10, 10, 10, 10, 10, 10, 10, 10, 10, 10] Editor_init) = 12"
    by (simp add: paste_lines_def f1 NL_def)
  have l1: "large_paste [10, 10, 10, 10, 10, 10, 10, 10, 10, 10, 10] Editor_init"
    by (simp add: large_paste_def p1)
  have c2: "clean_paste [97, 10, 98] = [97, 10, 98]"
    by (simp add: clean_paste_def replace_cr_def replace_tabs_def NL_def CR_def TAB_def)
  have f2: "filtered_paste [97, 10, 98] Editor_init = [97, 10, 98]"
    by (simp add: filtered_paste_def c2 Let_def)
  have p2: "paste_lines [97, 10, 98] Editor_init = [[97], [98]]"
    by (simp add: paste_lines_def f2 NL_def)
  have l2: "\<not> large_paste [97, 10, 98] Editor_init"
    by (simp add: large_paste_def p2 f2)
  have m: "paste_marker (Suc 0) 12 c = str ''[paste #1 +12 lines]''" for c
    by (simp add: paste_marker_def digits_of.simps str_def)
  have sp: "spliced Editor_init x = [x]" for x
    by (simp add: spliced_def text_before_def text_after_def e)
  have a: "pasteCounter (handlePaste [10, 10, 10, 10, 10, 10, 10, 10, 10, 10, 10] Editor_init) = 1
     \<and> pastes (handlePaste [10, 10, 10, 10, 10, 10, 10, 10, 10, 10, 10] Editor_init) = [(1, [10, 10, 10, 10, 10, 10, 10, 10, 10, 10, 10])]
     \<and> lines (handlePaste [10, 10, 10, 10, 10, 10, 10, 10, 10, 10, 10] Editor_init) = [str ''[paste #1 +12 lines]'']"
    using paste_policy[OF ok, of "[10, 10, 10, 10, 10, 10, 10, 10, 10, 10, 10]" 12 1 11] l1
    by (simp add: e f1 p1 m sp)
  have b: "lines (handlePaste [97, 10, 98] Editor_init) = [[97], [98]]"
    using paste_policy[OF ok, of "[97, 10, 98]" 12 1 11] l2
    by (simp add: e p2 splice_lines_def text_before_def text_after_def)
  show ?thesis using a b by simp
qed

subsection \<open>Calls of the change sink\<close>

lemma ac_free_fields:
  "strip_ac s' = strip_ac s \<Longrightarrow> lines s' = lines s \<and> changeLog s' = changeLog s
     \<and> cursorLine s' = cursorLine s \<and> cursorCol s' = cursorCol s"
  by (metis strip_fields(1,2,3,8))

lemma retrigger_fields [simp]:
  "lines (retrigger_autocomplete s) = lines s" "changeLog (retrigger_autocomplete s) = changeLog s"
  using ac_free_fields[OF strip_retrigger] by auto

lemma insert_autocomplete_fields [simp]:
  "lines (insert_autocomplete c s) = lines s" "changeLog (insert_autocomplete c s) = changeLog s"
  using ac_free_fields[OF strip_insert_autocomplete] by auto

lemma onChange_fields [simp]:
  "changeLog (onChange t s) = changeLog s @ [t]" "lines (onChange t s) = lines s"
  by (simp_all add: onChange_def)

lemma merge_changeLog [simp]:
  "changeLog (merge_with_previous s) = changeLog s" "changeLog (merge_with_next s) = changeLog s"
  by (simp_all add: merge_with_previous_def merge_with_next_def Let_def)







lemma changeLog_moveWordBackwards [simp]: "changeLog (moveWordBackwards E s) = changeLog s"
  using frame_moveWordBackwards[of s E] by (simp add: frame_def)







lemma extends_upd [simp]:
  "extends_log (s\<lparr>pendingShiftEnter := b\<rparr>) s' = extends_log s s'"
  "extends_log (s\<lparr>isInPaste := b\<rparr>) s' = extends_log s s'"
  "extends_log (s\<lparr>pasteBuffer := p\<rparr>) s' = extends_log s s'"
  "extends_log (s\<lparr>historyIndex := h\<rparr>) s' = extends_log s s'"
  "extends_log s (s'\<lparr>pendingShiftEnter := b\<rparr>) = extends_log s s'"
  "extends_log s (s'\<lparr>isInPaste := b\<rparr>) = extends_log s s'"
  "extends_log s (s'\<lparr>pasteBuffer := p\<rparr>) = extends_log s s'"
  "extends_log s (s'\<lparr>autocompleteList := l\<rparr>) = extends_log s s'"
  by (simp_all add: extends_log_def)
























subsection \<open>Printable Kitty sequences\<close>

lemma bit_length_upper: "n < 2 ^ bit_length n"
proof (induction n rule: bit_length.induct)
  case (1 n)
  show ?case
  proof (cases "n = 0")
    case True then show ?thesis by (simp add: bit_length.simps)
  next
    case False
    from 1[OF False] have "n div 2 < 2 ^ bit_length (n div 2)" .
    then have "n < 2 * 2 ^ bit_length (n div 2)" by linarith
    then show ?thesis using False by (subst bit_length.simps) simp
  qed
qed

lemma bit_length_lower: "0 < n \<Longrightarrow> 2 ^ (bit_length n - 1) \<le> n"
proof (induction n rule: bit_length.induct)
  case (1 n)
  then have n: "n \<noteq> 0" by simp
  show ?case
  proof (cases "n div 2 = 0")
    case True
    then have "bit_length (n div 2) = 0" by (simp add: bit_length.simps)
    then show ?thesis using n by (subst bit_length.simps) simp
  next
    case False
    then have pos: "0 < n div 2" by simp
    from 1(1)[OF n pos] have a: "2 ^ (bit_length (n div 2) - 1) \<le> n div 2" .
    have "0 < bit_length (n div 2)" using False by (subst bit_length.simps) simp
    then have "(2::nat) ^ bit_length (n div 2) = 2 * 2 ^ (bit_length (n div 2) - 1)"
      by (cases "bit_length (n div 2)") simp_all
    then have "(2::nat) ^ bit_length (n div 2) \<le> n" using a by linarith
    then show ?thesis using n by (subst bit_length.simps) simp
  qed
qed

lemma bit_length_eq: "2 ^ k \<le> n \<Longrightarrow> n < 2 ^ Suc k \<Longrightarrow> bit_length n = Suc k"
proof -
  assume a: "2 ^ k \<le> n" "n < 2 ^ Suc k"
  then have pos: "0 < n" by (metis less_le_trans zero_less_numeral zero_less_power)
  have "(2::nat) ^ k < 2 ^ bit_length n" using a(1) bit_length_upper[of n] by linarith
  then have 1: "k < bit_length n" by (simp add: power_strict_increasing_iff)
  have "(2::nat) ^ (bit_length n - 1) < 2 ^ Suc k" using bit_length_lower[OF pos] a(2) by linarith
  then have "bit_length n - 1 < Suc k" by (simp only: power_strict_increasing_iff one_less_numeral_iff semiring_norm)
  with 1 show ?thesis by simp
qed

lemma round_double_small: "n < 2 ^ 53 \<Longrightarrow> round_double n = n"
  by (simp add: round_double_def)

lemma round_double_large:
  assumes "2 ^ 53 \<le> n" shows "2 ^ 53 \<le> round_double n"
proof -
  define e where "e = bit_length n - 53"
  define q where "q = n div 2 ^ e"
  have pos: "0 < n" using assms by (metis less_le_trans zero_less_numeral zero_less_power)
  have "(2::nat) ^ 53 < 2 ^ bit_length n" using assms bit_length_upper[of n] by linarith
  then have bl: "53 < bit_length n" by (simp only: power_strict_increasing_iff one_less_numeral_iff semiring_norm)
  then have split: "bit_length n - 1 = 52 + e" by (simp add: e_def)
  have "(2::nat) ^ 52 * 2 ^ e \<le> n" using bit_length_lower[OF pos, unfolded split power_add] by simp
  then have q: "2 ^ 52 \<le> q" unfolding q_def by (simp add: less_eq_div_iff_mult_less_eq)
  have e: "1 \<le> e" using bl by (simp add: e_def)
  then have "(2::nat) ^ 1 \<le> 2 ^ e" by (rule power_increasing) simp
  then have "(2::nat) ^ 52 * 2 ^ 1 \<le> q * 2 ^ e" using q by (rule_tac mult_le_mono)
  then have a: "2 ^ 53 \<le> q * 2 ^ e" by simp
  then have b: "2 ^ 53 \<le> (q + 1) * 2 ^ e" by simp
  have "\<not> n < 2 ^ 53" using assms by simp
  then show ?thesis
    using a b by (simp add: round_double_def Let_def e_def[symmetric] q_def[symmetric] del: One_nat_def)
qed

lemma exact_finite: "n < 2 ^ 53 \<Longrightarrow> n < INFINITY_FROM"
proof -
  have "(2::nat) ^ 53 \<le> 2 ^ 1024 - 2 ^ 970" by simp
  then show "n < 2 ^ 53 \<Longrightarrow> n < INFINITY_FROM" by (simp add: INFINITY_FROM_def)
qed

lemma fromCodePoint_large: "2 ^ 53 \<le> n \<Longrightarrow> fromCodePoint n = None \<and> \<not> n < 32"
  by (simp add: fromCodePoint_def)

lemma emit_parse:
  "(case parseInt10 x of None \<Rightarrow> None | Some c \<Rightarrow> if c < 32 then None else fromCodePoint c)
     = (if decimal x < 32 then None else fromCodePoint (decimal x))"
proof (cases "decimal x < 2 ^ 53")
  case True
  then show ?thesis by (simp add: parseInt10_def exact_finite round_double_small)
next
  case False
  then have l: "2 ^ 53 \<le> decimal x" by simp
  show ?thesis
    using fromCodePoint_large[OF l] fromCodePoint_large[OF round_double_large[OF l]]
    by (simp add: parseInt10_def)
qed

lemma minus_one_exact: "m < 2 ^ 53 \<Longrightarrow> minus_one m = int m - 1"
  by (cases "m = 0") (simp_all add: minus_one_def round_double_small)

lemma modifier_exact:
  assumes "exact md"
  shows "(case (case md of None \<Rightarrow> Some 1 | Some d \<Rightarrow> parseInt10 d) of
            Some m \<Rightarrow> minus_one m | None \<Rightarrow> 0) = kitty_modifier md"
proof (cases md)
  case None
  then show ?thesis by (simp add: kitty_modifier_def minus_one_def round_double_def)
next
  case (Some d)
  then have d: "decimal d < 2 ^ 53" using assms by (simp add: exact_def)
  then show ?thesis
    by (simp add: Some kitty_modifier_def parseInt10_def exact_finite round_double_small
        minus_one_exact)
qed

lemma alt_or_ctrl:
  "(and m (or KITTY_MOD_ALT KITTY_MOD_CTRL) \<noteq> 0) = (and m 2 \<noteq> 0 \<or> and m 4 \<noteq> 0)"
proof -
  have "and m (or 2 4) = or (and m 2) (and m 4)"
    by (rule bit.conj_disj_distrib)
  then show ?thesis
    unfolding KITTY_MOD_ALT_def KITTY_MOD_CTRL_def by (simp only: or_eq_0_iff) blast
qed

lemma decode_csi_u:
  assumes "csi_fields cp shifted base md sub" "exact md"
  shows "decodeKittyPrintable (csi_u cp shifted base md sub) = kitty_text cp shifted md"
proof (cases "decimal cp < INFINITY_FROM")
  case False
  then show ?thesis
    unfolding decodeKittyPrintable_def kitty_match_csi_u[OF assms(1)]
    by (simp add: parseInt10_def number_isFinite_def kitty_text_def)
next
  case True
  then have fin: "number_isFinite (parseInt10 cp)" by (simp add: parseInt10_def number_isFinite_def)
  note m = modifier_exact[OF assms(2)]
  note e = emit_parse[of cp]
  show ?thesis
  proof (cases "and (kitty_modifier md) 2 \<noteq> 0 \<or> and (kitty_modifier md) 4 \<noteq> 0")
    case True': True
    then show ?thesis
      unfolding decodeKittyPrintable_def kitty_match_csi_u[OF assms(1)]
      using True fin by (simp add: Let_def m alt_or_ctrl kitty_text_def)
  next
    case False
    show ?thesis
    proof (cases shifted)
      case None
      then show ?thesis
        unfolding decodeKittyPrintable_def kitty_match_csi_u[OF assms(1)]
        using True fin False e
        by (simp add: Let_def m alt_or_ctrl kitty_text_def kitty_effective_def)
    next
      case (Some d)
      show ?thesis
        unfolding decodeKittyPrintable_def kitty_match_csi_u[OF assms(1)]
        using True fin False e emit_parse[of d]
        by (simp add: Some Let_def m alt_or_ctrl kitty_text_def kitty_effective_def
            KITTY_MOD_SHIFT_def)
    qed
  qed
qed

lemma includes_subset: "js_includes s pat \<Longrightarrow> set pat \<subseteq> set s"
  unfolding js_includes_def
proof (induction s)
  case Nil then show ?case by (simp split: if_splits)
next
  case (Cons x xs)
  show ?case
  proof (cases "prefix pat (x # xs)")
    case True then show ?thesis by (rule set_mono_prefix)
  next
    case False
    with Cons show ?thesis by auto
  qed
qed

lemma csi_u_set:
  assumes "csi_fields cp shifted base md sub"
  shows "set (csi_u cp shifted base md sub) \<subseteq> {27, 91, 58, 59, 117} \<union> {c. isDigit c}"
  using assms
  by (auto simp: csi_u_def opt_field_def csi_fields_def digit_string_def list_all_iff
      split: option.splits)

lemma csi_u_dispatch:
  assumes "csi_fields cp shifted base md sub"
  defines "data \<equiv> csi_u cp shifted base md sub"
  shows "\<not> js_includes data PASTE_START" "data \<noteq> [92]" "data \<noteq> [13]"
    "\<not> kb_matches E data Action_newLine \<Longrightarrow> \<not> is_newline_input E data"
    "\<not> (case data of [] \<Rightarrow> False | c # _ \<Rightarrow> c \<ge> 32)"
proof -
  have sub: "set data \<subseteq> {27, 91, 58, 59, 117} \<union> {c. isDigit c}"
    unfolding data_def by (rule csi_u_set[OF assms(1)])
  have n126: "126 \<notin> set data" and n13: "13 \<notin> set data"
    using sub by (auto simp: isDigit_def)
  have hd: "\<exists>r. data = 27 # 91 # r" by (simp add: data_def csi_u_def)
  show "\<not> js_includes data PASTE_START"
    using includes_subset[of data PASTE_START] n126 by (auto simp: PASTE_START_def)
  show "data \<noteq> [92]" "data \<noteq> [13]" using hd by auto
  show "\<not> (case data of [] \<Rightarrow> False | c # _ \<Rightarrow> c \<ge> 32)" using hd by auto
  show "\<not> is_newline_input E data" if "\<not> kb_matches E data Action_newLine"
  proof -
    have "\<not> js_includes data [13]" using n13 by (simp add: not_includes)
    moreover have "data \<noteq> str (CHR 0x1B # ''[13;2~'')" using n126 by (auto simp: str_def)
    ultimately show ?thesis using hd that by (auto simp: is_newline_input_def)
  qed
qed

lemma autocomplete_keys_unbound: "unbound E data \<Longrightarrow> autocomplete_keys E data s = Inr s"
  by (simp add: autocomplete_keys_def unbound_def split: option.split)

lemma handle_action_unbound:
  assumes "unbound E data" "\<not> is_newline_input E data"
  shows "handle_action E data s =
     (case decodeKittyPrintable data of
        Some k \<Rightarrow> insertCharacter k s
      | None \<Rightarrow> if (case data of [] \<Rightarrow> False | c # _ \<Rightarrow> c \<ge> 32) then insertCharacter data s else s)"
  using assms by (simp add: handle_action_def unbound_def)

lemma handleKey_unbound:
  assumes "unbound E data" "data \<noteq> [92]" "data \<noteq> [13]"
  shows "handleKey E data s =
     handle_action E data
       (if pendingShiftEnter s then insertCharacter [92] (s\<lparr>pendingShiftEnter := False\<rparr>) else s)"
  using assms autocomplete_keys_unbound[OF assms(1)]
  by (simp add: handleKey_def unbound_def)

lemma unbound_csi_u:
  assumes "csi_fields cp shifted base md sub" "\<not> isInPaste s"
    "unbound E (csi_u cp shifted base md sub)"
  shows "handleInput E (csi_u cp shifted base md sub) s =
     (case decodeKittyPrintable (csi_u cp shifted base md sub) of
        Some k \<Rightarrow> insertCharacter k
          (if pendingShiftEnter s then insertCharacter [92] (s\<lparr>pendingShiftEnter := False\<rparr>) else s)
      | None \<Rightarrow> if pendingShiftEnter s then insertCharacter [92] (s\<lparr>pendingShiftEnter := False\<rparr>) else s)"
proof -
  note d = csi_u_dispatch[OF assms(1)]
  have nl: "\<not> is_newline_input E (csi_u cp shifted base md sub)"
    using assms(3) by (intro d(4)) (simp add: unbound_def)
  show ?thesis
    unfolding handleInput_no_paste[OF assms(2) d(1)] handleKey_unbound[OF assms(3) d(2,3)]
      handle_action_unbound[OF assms(3) nl]
    using d(5) by (simp split: option.split)
qed

lemma insertCharacter_at_cursor:
  assumes "cursor_ok s"
  shows "lines (insertCharacter c s) = spliced s c"
    and "cursorLine (insertCharacter c s) = cursorLine s"
    and "cursorCol (insertCharacter c s) = cursorCol s + int (length c)"
    and "cursor_ok (insertCharacter c s)"
    and "spliced (insertCharacter c s) t = spliced s (c @ t)"
proof -
  have ok: "cursor_ok (strip_ac s)" using assms by (simp add: strip_cursor_ok)
  have l: "lines (insertCharacter c s) = lines (strip_ac (insertCharacter c s))"
    and cl: "cursorLine (insertCharacter c s) = cursorLine (strip_ac (insertCharacter c s))"
    and cc: "cursorCol (insertCharacter c s) = cursorCol (strip_ac (insertCharacter c s))"
    by (simp_all only: strip_fields)
  show "lines (insertCharacter c s) = spliced s c"
    unfolding l strip_insertCharacter by (simp add: insert_text_lines[OF ok] strip_spliced)
  show "cursorLine (insertCharacter c s) = cursorLine s"
    unfolding cl strip_insertCharacter by (simp add: insert_text_fields strip_fields)
  show "cursorCol (insertCharacter c s) = cursorCol s + int (length c)"
    unfolding cc strip_insertCharacter by (simp add: insert_text_fields strip_fields)
  have "cursor_ok (strip_ac (insertCharacter c s))"
    unfolding strip_insertCharacter by (rule insert_text_ok[OF ok])
  then show "cursor_ok (insertCharacter c s)" by (simp only: strip_cursor_ok)
  have "spliced (insertCharacter c s) t = spliced (strip_ac (insertCharacter c s)) t"
    by (simp only: strip_spliced)
  also have "\<dots> = spliced s (c @ t)"
    unfolding strip_insertCharacter by (simp add: spliced_insert_text[OF ok] strip_spliced)
  finally show "spliced (insertCharacter c s) t = spliced s (c @ t)" .
qed

lemma released_backslash:
  assumes "cursor_ok s"
  defines "s' \<equiv> (if pendingShiftEnter s then insertCharacter [92] (s\<lparr>pendingShiftEnter := False\<rparr>) else s)"
  shows "cursor_ok s'" and "spliced s' t = spliced s (pending_text s @ t)"
    and "cursorLine s' = cursorLine s"
    and "cursorCol s' = cursorCol s + int (length (pending_text s))"
proof -
  let ?s0 = "s\<lparr>pendingShiftEnter := False\<rparr>"
  have ok0: "cursor_ok ?s0" using assms(1) by (simp add: cursor_ok_def)
  have sp0: "spliced ?s0 u = spliced s u" for u
    by (simp add: spliced_def text_before_def text_after_def)
  note i = insertCharacter_at_cursor[OF ok0, of "[92]"]
  show "cursor_ok s'" using assms(1) i(4) by (simp add: s'_def)
  show "spliced s' t = spliced s (pending_text s @ t)"
    using i(5)[of t] by (simp add: s'_def pending_text_def sp0)
  show "cursorLine s' = cursorLine s" using i(2) by (simp add: s'_def)
  show "cursorCol s' = cursorCol s + int (length (pending_text s))"
    using i(3) by (simp add: s'_def pending_text_def)
qed

lemma spliced_nothing: "cursor_ok s \<Longrightarrow> spliced s [] = lines s"
  by (simp add: spliced_def text_before_def text_after_def)

lemma csi_u_typed:
  assumes "csi_fields cp shifted base md sub" "\<not> isInPaste s" "cursor_ok s"
    "unbound E (csi_u cp shifted base md sub)"
  defines "k \<equiv> (case decodeKittyPrintable (csi_u cp shifted base md sub) of None \<Rightarrow> [] | Some k \<Rightarrow> k)"
  defines "r \<equiv> handleInput E (csi_u cp shifted base md sub) s"
  shows "lines r = spliced s (pending_text s @ k)"
    and "cursorLine r = cursorLine s"
    and "cursorCol r = cursorCol s + int (length (pending_text s @ k))"
proof -
  define s' where "s' = (if pendingShiftEnter s then insertCharacter [92] (s\<lparr>pendingShiftEnter := False\<rparr>) else s)"
  note b = released_backslash[OF assms(3), folded s'_def]
  have r: "r = (case decodeKittyPrintable (csi_u cp shifted base md sub) of
                  Some k \<Rightarrow> insertCharacter k s' | None \<Rightarrow> s')"
    unfolding r_def s'_def by (rule unbound_csi_u[OF assms(1,2,4)])
  show "lines r = spliced s (pending_text s @ k)"
    using b(2)[of "[]"] spliced_nothing[OF b(1)] insertCharacter_at_cursor(1)[OF b(1)] b(2)
    by (simp add: r k_def split: option.split)
  show "cursorLine r = cursorLine s"
    using b(3) insertCharacter_at_cursor(2)[OF b(1)] by (simp add: r split: option.split)
  show "cursorCol r = cursorCol s + int (length (pending_text s @ k))"
    using b(4) insertCharacter_at_cursor(3)[OF b(1)] by (simp add: r k_def split: option.split)
qed

lemma csi_u_dropped:
  assumes "csi_fields cp shifted base md sub" "\<not> isInPaste s" "\<not> pendingShiftEnter s"
    "unbound E (csi_u cp shifted base md sub)"
    "decodeKittyPrintable (csi_u cp shifted base md sub) = None"
  shows "handleInput E (csi_u cp shifted base md sub) s = s"
  using unbound_csi_u[OF assms(1,2,4)] assms(3,5) by simp

lemma shifted_a_csi: "shifted_a = csi_u [57, 55] (Some [54, 53]) None (Some [50]) None"
  by (simp add: shifted_a_def csi_u_def opt_field_def)

lemma shifted_a_fields: "csi_fields [57, 55] (Some [54, 53]) None (Some [50]) None"
  "exact (Some [50])"
  by (simp_all add: csi_fields_def digit_string_def isDigit_def exact_def decimal_def)

lemma kitty_text_shifted_a: "kitty_text [57, 55] (Some [54, 53]) (Some [50]) = Some [65]"
proof -
  have "(2::nat) \<le> 2 ^ 1024 - 2 ^ 970" by simp
  then have "\<not> INFINITY_FROM \<le> 97" by (simp add: INFINITY_FROM_def)
  then show ?thesis
    by (simp add: kitty_text_def kitty_modifier_def kitty_effective_def decimal_def
        fromCodePoint_def)
qed

lemma shifted_a_decodes: "decodeKittyPrintable shifted_a = Some [65]"
  unfolding shifted_a_csi decode_csi_u[OF shifted_a_fields] by (rule kitty_text_shifted_a)

text \<open>
  Claim C9, amended. For every CSI-u sequence of the pattern whose modifier field is below
  \<open>2^53\<close>, \<open>decodeKittyPrintable\<close> gives what the sequence stands for (\<open>kitty_text\<close>): nothing
  when the modifier has the Alt or the Ctrl bit, or when the effective code point, the
  shifted one when Shift is set and a shifted code point is present and the plain one
  otherwise, is below 32 or above U+10FFFF, or when the code point field overflows; the
  effective code point as a string otherwise. In an editor outside a bracketed paste whose
  key table does not bind the sequence, that string and nothing else is put into the buffer
  at the cursor, after the backslash the editor may have held back, and the cursor moves
  behind it; when the sequence stands for nothing and no backslash is held back the state
  stays as it is. In particular \<open>ESC [ 97 : 65 ; 2 u\<close> decodes to \<open>A\<close>, and \<open>A\<close> is put into the
  buffer at the cursor.
\<close>

theorem kitty_printable:
  "(csi_fields cp shifted base md sub \<and> exact md \<longrightarrow>
      decodeKittyPrintable (csi_u cp shifted base md sub) = kitty_text cp shifted md)
   \<and> (csi_fields cp shifted base md sub \<and> exact md \<and> \<not> isInPaste s \<and> cursor_ok s
        \<and> unbound E (csi_u cp shifted base md sub) \<longrightarrow>
      lines (handleInput E (csi_u cp shifted base md sub) s)
        = spliced s (pending_text s @ (case kitty_text cp shifted md of None \<Rightarrow> [] | Some k \<Rightarrow> k))
      \<and> cursorLine (handleInput E (csi_u cp shifted base md sub) s) = cursorLine s
      \<and> cursorCol (handleInput E (csi_u cp shifted base md sub) s)
        = cursorCol s
          + int (length (pending_text s @ (case kitty_text cp shifted md of None \<Rightarrow> [] | Some k \<Rightarrow> k))))
   \<and> (csi_fields cp shifted base md sub \<and> exact md \<and> \<not> isInPaste s \<and> \<not> pendingShiftEnter s
        \<and> unbound E (csi_u cp shifted base md sub) \<and> kitty_text cp shifted md = None \<longrightarrow>
      handleInput E (csi_u cp shifted base md sub) s = s)
   \<and> decodeKittyPrintable shifted_a = Some [65]
   \<and> (\<not> isInPaste s \<and> cursor_ok s \<and> unbound E shifted_a \<longrightarrow>
      lines (handleInput E shifted_a s) = spliced s (pending_text s @ [65])
      \<and> cursorLine (handleInput E shifted_a s) = cursorLine s
      \<and> cursorCol (handleInput E shifted_a s) = cursorCol s + int (length (pending_text s)) + 1)"
proof -
  have 1: "decodeKittyPrintable (csi_u cp shifted base md sub) = kitty_text cp shifted md"
    if "csi_fields cp shifted base md sub" "exact md"
    using that by (rule decode_csi_u)
  have 2: "lines (handleInput E (csi_u cp shifted base md sub) s)
        = spliced s (pending_text s @ (case kitty_text cp shifted md of None \<Rightarrow> [] | Some k \<Rightarrow> k))
      \<and> cursorLine (handleInput E (csi_u cp shifted base md sub) s) = cursorLine s
      \<and> cursorCol (handleInput E (csi_u cp shifted base md sub) s)
        = cursorCol s
          + int (length (pending_text s @ (case kitty_text cp shifted md of None \<Rightarrow> [] | Some k \<Rightarrow> k)))"
    if "csi_fields cp shifted base md sub" "exact md" "\<not> isInPaste s" "cursor_ok s"
      "unbound E (csi_u cp shifted base md sub)"
    using csi_u_typed[OF that(1,3,4,5)] unfolding decode_csi_u[OF that(1,2)] by blast
  have 3: "handleInput E (csi_u cp shifted base md sub) s = s"
    if "csi_fields cp shifted base md sub" "exact md" "\<not> isInPaste s" "\<not> pendingShiftEnter s"
      "unbound E (csi_u cp shifted base md sub)" "kitty_text cp shifted md = None"
    using that(6) csi_u_dropped[OF that(1,3,4,5)] unfolding decode_csi_u[OF that(1,2)] by blast
  have 5: "lines (handleInput E shifted_a s) = spliced s (pending_text s @ [65])
      \<and> cursorLine (handleInput E shifted_a s) = cursorLine s
      \<and> cursorCol (handleInput E shifted_a s) = cursorCol s + int (length (pending_text s)) + 1"
    if "\<not> isInPaste s" "cursor_ok s" "unbound E shifted_a"
    using csi_u_typed[OF shifted_a_fields(1) that(1,2) that(3)[unfolded shifted_a_csi]]
      shifted_a_decodes
    unfolding shifted_a_csi[symmetric] by simp
  show ?thesis using 1 2 3 shifted_a_decodes 5 by blast
qed

theorem kitty_printable_witness:
  "decodeKittyPrintable (csi_u [57, 55] (Some [54, 53]) None (Some [50]) None) = Some [65]
   \<and> lines (handleInput sample_env shifted_a Editor_init) = [[65]]
   \<and> cursorCol (handleInput sample_env shifted_a Editor_init) = 1"
proof -
  have u: "unbound sample_env shifted_a"
    by (auto simp: unbound_def sample_fields sample_matches_def shifted_a_def split: action.split)
  have s: "\<not> isInPaste Editor_init" "cursor_ok Editor_init" "pending_text Editor_init = []"
    "spliced Editor_init [65] = [[65]]" "cursorCol Editor_init = 0"
    by (simp_all add: Editor_init_def cursor_ok_def pending_text_def spliced_def text_before_def
        text_after_def)
  show ?thesis
    using kitty_printable[of "[57, 55]" "Some [54, 53]" None "Some [50]" None Editor_init sample_env]
      shifted_a_fields u s kitty_text_shifted_a
    by (simp add: shifted_a_csi[symmetric])
qed

lemma huge_alt_decimal: "decimal huge_alt = 1152921504606846979"
  by (simp add: decimal_def huge_alt_def)

lemma huge_alt_parsed: "parseInt10 huge_alt = Some 1152921504606846976"
proof -
  have b: "bit_length 1152921504606846979 = Suc 60" by (rule bit_length_eq) simp_all
  have f: "(1152921504606846979::nat) < 2 ^ 1024 - 2 ^ 970" by simp
  have "round_double 1152921504606846979 = 1152921504606846976"
    by (simp add: round_double_def b Let_def)
  then show ?thesis using f by (simp add: parseInt10_def huge_alt_decimal INFINITY_FROM_def)
qed

lemma huge_alt_minus_one: "minus_one 1152921504606846976 = 1152921504606846976"
proof -
  have b: "bit_length 1152921504606846975 = Suc 59" by (rule bit_length_eq) simp_all
  have "round_double 1152921504606846975 = 1152921504606846976"
    by (simp add: round_double_def b Let_def)
  then show ?thesis by (simp add: minus_one_def)
qed

lemma huge_alt_fields: "csi_fields [57, 55] None None (Some huge_alt) None"
  by (simp add: csi_fields_def digit_string_def isDigit_def huge_alt_def)

lemma huge_alt_decodes:
  "decodeKittyPrintable (csi_u [57, 55] None None (Some huge_alt) None) = Some [97]"
proof -
  have f: "(97::nat) < 2 ^ 1024 - 2 ^ 970" by simp
  have cp: "parseInt10 [57, 55] = Some 97"
    using f by (simp add: parseInt10_def decimal_def INFINITY_FROM_def round_double_def)
  have a: "and (1152921504606846976::int) 2 = 0" "and (1152921504606846976::int) 4 = 0"
    by simp_all
  show ?thesis
    unfolding decodeKittyPrintable_def kitty_match_csi_u[OF huge_alt_fields]
    by (simp add: Let_def cp huge_alt_parsed huge_alt_minus_one number_isFinite_def alt_or_ctrl a
        fromCodePoint_def)
qed

text \<open>
  Claim C9 as stated fails for a modifier field that is no exact JavaScript number: in
  \<open>ESC [ 97 ; 1152921504606846979 u\<close> the modifier is \<open>2^60 + 2\<close>, whose Alt bit is set, but
  the code tests the bits of the rounded number \<open>2^60\<close>, decodes the sequence to \<open>a\<close> and
  the editor inserts it.
\<close>

theorem huge_modifier_inserts:
  "decodeKittyPrintable (csi_u [57, 55] None None (Some huge_alt) None) = Some [97]
   \<and> and (kitty_modifier (Some huge_alt)) 2 = 2
   \<and> lines (handleInput sample_env (csi_u [57, 55] None None (Some huge_alt) None) Editor_init)
       = [[97]]"
proof -
  have m: "and (kitty_modifier (Some huge_alt)) 2 = 2"
    by (simp add: kitty_modifier_def huge_alt_decimal)
  have u: "unbound sample_env (csi_u [57, 55] None None (Some huge_alt) None)"
    by (auto simp: unbound_def sample_fields sample_matches_def csi_u_def opt_field_def
        huge_alt_def split: action.split)
  have s: "\<not> isInPaste Editor_init" "cursor_ok Editor_init" "pending_text Editor_init = []"
    "spliced Editor_init [97] = [[97]]"
    by (simp_all add: Editor_init_def cursor_ok_def pending_text_def spliced_def text_before_def
        text_after_def)
  have "lines (handleInput sample_env (csi_u [57, 55] None None (Some huge_alt) None) Editor_init)
       = [[97]]"
    using csi_u_typed(1)[OF huge_alt_fields s(1,2) u] by (simp add: huge_alt_decodes s)
  then show ?thesis using huge_alt_decodes m by simp
qed

subsection \<open>Submitting a pasted text\<close>





lemma nondigit32 [simp]: "\<not> isDigit 32" "\<not> isDigit 43" "\<not> isDigit 93"
  by (simp_all add: isDigit_def)











































end
